theory Spec2Isabelle
  imports Complex_Main "HOL-Library.Sublist"
begin

section \<open>Common Go notions\<close>

text \<open>
  A Go \<^verbatim>\<open>string\<close> is a sequence of bytes; it is modelled by \<^typ>\<open>string\<close>, whose
  characters are bytes, so that \<^const>\<open>length\<close> is Go's \<^verbatim>\<open>len\<close>.

  An \<^verbatim>\<open>error\<close> value is \<open>go_error option\<close>, \<^const>\<open>None\<close> being \<^verbatim>\<open>nil\<close>.
  \<open>io_EOF\<close> is the sentinel \<^verbatim>\<open>io.EOF\<close>, \<open>ErrorString\<close> a value made by
  \<^verbatim>\<open>errors.New\<close>, and \<open>Wrapped\<close> one made by \<^verbatim>\<open>fmt.Errorf("...: %w", err)\<close>.
\<close>

datatype go_error = io_EOF | ErrorString string | Wrapped string go_error

text \<open>
  A call either returns or ends in a run-time panic (here: a slice expression whose
  bounds are out of range).
\<close>

datatype 'a outcome = Returns 'a | Panics

section \<open>storage.go: the bounded history store\<close>

record QAPair =
  Question :: string
  Answer :: string

text \<open>
  \<^verbatim>\<open>MemoryStorage\<close>: the mutex is left out, every call below being one critical
  section. \<open>maxSize\<close> is a Go \<^verbatim>\<open>int\<close> and may be negative: \<^verbatim>\<open>NewMemoryStorage\<close> takes
  whatever \<^verbatim>\<open>getIntEnv("MAX_HISTORY_SIZE", 1000)\<close> read.
\<close>

record MemoryStorage =
  maxSize :: int
  pairs :: "QAPair list"

definition NewMemoryStorage :: "int \<Rightarrow> MemoryStorage" where
  "NewMemoryStorage n = \<lparr>maxSize = n, pairs = []\<rparr>"

text \<open>
  The slice expression \<^verbatim>\<open>xs[low:]\<close>. Go requires \<open>0 \<le> low \<le> len(xs)\<close> and panics
  otherwise; \<^const>\<open>None\<close> is that panic.
\<close>

definition slice_from :: "'a list \<Rightarrow> int \<Rightarrow> 'a list option" where
  "slice_from xs low =
     (if 0 \<le> low \<and> low \<le> int (length xs) then Some (drop (nat low) xs) else None)"

text \<open>
  \<^verbatim>\<open>Add\<close>, lines 36-48. The append is stored in \<^verbatim>\<open>s.pairs\<close> before the trim, so a
  panic in the trim leaves the appended log behind (the deferred unlock runs, and
  \<^verbatim>\<open>net/http\<close> recovers the panic of a handler).

  The index \<^verbatim>\<open>len(s.pairs)-s.maxSize\<close> is computed on unbounded integers. In 64-bit
  arithmetic it can only wrap when \<open>maxSize < 0\<close>, and then the wrapped value is
  negative where the unwrapped one exceeds the length: out of range either way.
\<close>

definition Add :: "MemoryStorage \<Rightarrow> QAPair \<Rightarrow> go_error option outcome \<times> MemoryStorage" where
  "Add s pair =
     (let s1 = s\<lparr>pairs := pairs s @ [pair]\<rparr> in
      if int (length (pairs s1)) > maxSize s1 then
        (case slice_from (pairs s1) (int (length (pairs s1)) - maxSize s1) of
           None \<Rightarrow> (Panics, s1)
         | Some ps \<Rightarrow> (Returns None, s1\<lparr>pairs := ps\<rparr>))
      else (Returns None, s1))"

text \<open>
  \<^verbatim>\<open>make([]QAPair, n)\<close> is \<open>n\<close> zero values, and the builtin \<^verbatim>\<open>copy(dst, src)\<close>
  overwrites the first \<open>min (len dst) (len src)\<close> elements of \<open>dst\<close>.
\<close>

definition zero_QAPair :: QAPair where
  "zero_QAPair = \<lparr>Question = [], Answer = []\<rparr>"

definition make_slice :: "nat \<Rightarrow> QAPair list" where
  "make_slice n = replicate n zero_QAPair"

definition copy_slice :: "'a list \<Rightarrow> 'a list \<Rightarrow> 'a list" where
  "copy_slice dst src =
     (let n = min (length dst) (length src) in take n src @ drop n dst)"

definition GetAll :: "MemoryStorage \<Rightarrow> QAPair list \<times> go_error option" where
  "GetAll s =
     (let result = make_slice (length (pairs s));
          result = copy_slice result (pairs s)
      in (result, None))"

text \<open>A run of \<^verbatim>\<open>Add\<close> calls: the outcome of each, and the store they leave.\<close>

fun Add_all :: "MemoryStorage \<Rightarrow> QAPair list \<Rightarrow> go_error option outcome list \<times> MemoryStorage" where
  "Add_all s [] = ([], s)"
| "Add_all s (p # ps) =
     (case Add s p of (r, s1) \<Rightarrow> (case Add_all s1 ps of (rs, s2) \<Rightarrow> (r # rs, s2)))"

text \<open>The spec's drop policy: the most recent \<open>n\<close> entries of a log, oldest first.\<close>

definition most_recent :: "nat \<Rightarrow> 'a list \<Rightarrow> 'a list" where
  "most_recent n xs = drop (length xs - n) xs"

subsection \<open>The store with its slices in memory\<close>

text \<open>
  Whether a returned slice is a copy or a view depends on which backing array it points
  to, so the store is modelled a second time with arrays at addresses. The heap is the
  list of the arrays allocated so far, an address is an index into it, and an
  allocation adds an array at the end. A slice is an array's address, an offset, a
  length and a capacity. Go's memory safety keeps every slice within its array
  (\<open>wf_slice\<close>); \<^verbatim>\<open>NewMemoryStorage\<close>, \<^verbatim>\<open>Add\<close> and \<^verbatim>\<open>GetAll\<close> are shown to keep it so.
\<close>

type_synonym heap = "QAPair list list"

record slice =
  arr :: nat
  off :: nat
  len :: nat
  cap :: nat

definition slice_view :: "heap \<Rightarrow> slice \<Rightarrow> QAPair list" where
  "slice_view h s = take (len s) (drop (off s) (h ! arr s))"

definition wf_slice :: "heap \<Rightarrow> slice \<Rightarrow> bool" where
  "wf_slice h s = (arr s < length h \<and> off s + cap s \<le> length (h ! arr s) \<and> len s \<le> cap s)"

text \<open>\<^verbatim>\<open>make([]QAPair, n)\<close> and the builtin \<^verbatim>\<open>copy(dst, src)\<close>.\<close>

definition heap_make :: "heap \<Rightarrow> nat \<Rightarrow> slice \<times> heap" where
  "heap_make h n = (\<lparr>arr = length h, off = 0, len = n, cap = n\<rparr>, h @ [make_slice n])"

definition heap_copy :: "heap \<Rightarrow> slice \<Rightarrow> slice \<Rightarrow> heap" where
  "heap_copy h dst src =
     (let n = min (len dst) (len src); a = h ! arr dst
      in h[arr dst := take (off dst) a @ take n (slice_view h src) @ drop (off dst + n) a])"

text \<open>
  \<^verbatim>\<open>append(s, x)\<close> writes into the backing array when the capacity allows, and
  otherwise allocates a new array that holds the old elements, \<open>x\<close> and some spare
  room. How much room is the implementation's choice: \<open>spare\<close>, a function of the old
  capacity, is a parameter of everything below.
\<close>

definition heap_append :: "(nat \<Rightarrow> nat) \<Rightarrow> heap \<Rightarrow> slice \<Rightarrow> QAPair \<Rightarrow> slice \<times> heap" where
  "heap_append spare h s x =
     (if len s < cap s then
        (s\<lparr>len := len s + 1\<rparr>, h[arr s := (h ! arr s)[off s + len s := x] ])
      else
        (\<lparr>arr = length h, off = 0, len = len s + 1, cap = len s + 1 + spare (cap s)\<rparr>,
         h @ [slice_view h s @ [x] @ make_slice (spare (cap s))]))"

text \<open>The slice expression \<^verbatim>\<open>s[low:]\<close> on a slice header.\<close>

definition heap_slice_from :: "slice \<Rightarrow> int \<Rightarrow> slice option" where
  "heap_slice_from s low =
     (if 0 \<le> low \<and> low \<le> int (len s) then
        Some \<lparr>arr = arr s, off = off s + nat low, len = len s - nat low, cap = cap s - nat low\<rparr>
      else None)"

text \<open>\<^verbatim>\<open>MemoryStorage\<close> with \<^verbatim>\<open>pairs\<close> as a slice header, and its three operations.\<close>

record MemoryStorage_mem =
  mem_maxSize :: int
  mem_pairs :: slice

definition NewMemoryStorage_mem :: "heap \<Rightarrow> int \<Rightarrow> MemoryStorage_mem \<times> heap" where
  "NewMemoryStorage_mem h n =
     (case heap_make h 0 of (sl, h1) \<Rightarrow> (\<lparr>mem_maxSize = n, mem_pairs = sl\<rparr>, h1))"

definition Add_mem ::
  "(nat \<Rightarrow> nat) \<Rightarrow> heap \<Rightarrow> MemoryStorage_mem \<Rightarrow> QAPair \<Rightarrow>
   go_error option outcome \<times> heap \<times> MemoryStorage_mem" where
  "Add_mem spare h s pair =
     (case heap_append spare h (mem_pairs s) pair of
        (sl, h1) \<Rightarrow>
          (let s1 = s\<lparr>mem_pairs := sl\<rparr> in
           if int (len (mem_pairs s1)) > mem_maxSize s1 then
             (case heap_slice_from (mem_pairs s1) (int (len (mem_pairs s1)) - mem_maxSize s1) of
                None \<Rightarrow> (Panics, h1, s1)
              | Some sl2 \<Rightarrow> (Returns None, h1, s1\<lparr>mem_pairs := sl2\<rparr>))
           else (Returns None, h1, s1)))"

definition GetAll_mem :: "heap \<Rightarrow> MemoryStorage_mem \<Rightarrow> (slice \<times> go_error option) \<times> heap" where
  "GetAll_mem h s =
     (case heap_make h (len (mem_pairs s)) of
        (result, h1) \<Rightarrow> ((result, None), heap_copy h1 result (mem_pairs s)))"

fun Add_all_mem ::
  "(nat \<Rightarrow> nat) \<Rightarrow> heap \<Rightarrow> MemoryStorage_mem \<Rightarrow> QAPair list \<Rightarrow> heap \<times> MemoryStorage_mem" where
  "Add_all_mem spare h s [] = (h, s)"
| "Add_all_mem spare h s (p # ps) =
     (case Add_mem spare h s p of (r, h1, s1) \<Rightarrow> Add_all_mem spare h1 s1 ps)"

text \<open>The log a store in memory holds: the view through its slice.\<close>

definition abstract_storage :: "heap \<Rightarrow> MemoryStorage_mem \<Rightarrow> MemoryStorage" where
  "abstract_storage h s = \<lparr>maxSize = mem_maxSize s, pairs = slice_view h (mem_pairs s)\<rparr>"

section \<open>The standard library's white space\<close>

text \<open>
  \<^verbatim>\<open>strings.TrimSpace\<close> removes the leading and the trailing runes for which
  \<^verbatim>\<open>unicode.IsSpace\<close> holds. \<open>space_runes\<close> lists the UTF-8 encodings of these runes:
  tab, line feed, vertical tab, form feed, carriage return, space, U+0085, U+00A0,
  U+1680, U+2000 to U+200A, U+2028, U+2029, U+202F, U+205F and U+3000. A byte that
  starts no valid encoding decodes to U+FFFD, which is no space, so trimming stops
  there.
\<close>

definition space_runes :: "string list" where
  "space_runes =
     [ [CHR 0x09], [CHR 0x0A], [CHR 0x0B], [CHR 0x0C], [CHR 0x0D], [CHR 0x20],
      [CHR 0xC2, CHR 0x85], [CHR 0xC2, CHR 0xA0],
      [CHR 0xE1, CHR 0x9A, CHR 0x80],
      [CHR 0xE2, CHR 0x80, CHR 0x80], [CHR 0xE2, CHR 0x80, CHR 0x81],
      [CHR 0xE2, CHR 0x80, CHR 0x82], [CHR 0xE2, CHR 0x80, CHR 0x83],
      [CHR 0xE2, CHR 0x80, CHR 0x84], [CHR 0xE2, CHR 0x80, CHR 0x85],
      [CHR 0xE2, CHR 0x80, CHR 0x86], [CHR 0xE2, CHR 0x80, CHR 0x87],
      [CHR 0xE2, CHR 0x80, CHR 0x88], [CHR 0xE2, CHR 0x80, CHR 0x89],
      [CHR 0xE2, CHR 0x80, CHR 0x8A],
      [CHR 0xE2, CHR 0x80, CHR 0xA8], [CHR 0xE2, CHR 0x80, CHR 0xA9],
      [CHR 0xE2, CHR 0x80, CHR 0xAF], [CHR 0xE2, CHR 0x81, CHR 0x9F],
      [CHR 0xE3, CHR 0x80, CHR 0x80] ]"

text \<open>The width in bytes of the rune of \<open>encs\<close> that \<open>s\<close> starts with, 0 if there is none.\<close>

fun rune_width :: "string list \<Rightarrow> string \<Rightarrow> nat" where
  "rune_width [] s = 0"
| "rune_width (e # es) s = (if prefix e s then length e else rune_width es s)"

function strip_runes :: "string list \<Rightarrow> string \<Rightarrow> string" where
  "strip_runes encs s =
     (if rune_width encs s = 0 then s else strip_runes encs (drop (rune_width encs s) s))"
  by pat_completeness auto
termination
proof (relation "measure (\<lambda>(encs, s). length s)")
  show "wf (measure (\<lambda>(encs :: string list, s :: string). length s))" by simp
next
  fix encs :: "string list" and s :: string
  assume pos: "rune_width encs s \<noteq> 0"
  have "rune_width encs s \<le> length s"
    by (induction encs) (auto simp: prefix_length_le)
  with pos show "((encs, drop (rune_width encs s) s), (encs, s)) \<in> measure (\<lambda>(encs, s). length s)"
    by simp
qed

declare strip_runes.simps [simp del]

text \<open>
  Leading runes are decoded forwards, trailing ones backwards from the end of what is
  left; a trailing rune is a space exactly when the string ends with its encoding.
\<close>

definition TrimSpace :: "string \<Rightarrow> string" where
  "TrimSpace s = rev (strip_runes (map rev space_runes) (rev (strip_runes space_runes s)))"

text \<open>\<^verbatim>\<open>strings.Contains\<close>.\<close>

fun Contains :: "string \<Rightarrow> string \<Rightarrow> bool" where
  "Contains [] substr = (substr = [])"
| "Contains (c # s) substr = (prefix substr (c # s) \<or> Contains s substr)"

section \<open>ollama.go: the inference client\<close>

record OllamaOptions =
  NumPredict :: int

record OllamaRequest =
  Model :: string
  Prompt :: string
  Stream :: bool
  Options :: OllamaOptions

record OllamaResponse =
  Response :: string
  Done :: bool

text \<open>
  \<^verbatim>\<open>OllamaClient\<close>; its \<^verbatim>\<open>http.Client\<close> is part of the world below. The timeout and
  the caller's context act through what \<^verbatim>\<open>client.Do\<close> and the body's reader report.
\<close>

record OllamaClient =
  url :: string
  model :: string
  timeout :: int
  maxTokens :: int

definition NewOllamaClient :: "string \<Rightarrow> string \<Rightarrow> int \<Rightarrow> int \<Rightarrow> OllamaClient" where
  "NewOllamaClient u m t n = \<lparr>url = u, model = m, timeout = t, maxTokens = n\<rparr>"

text \<open>The outbound request handed to \<^verbatim>\<open>client.Do\<close>.\<close>

record http_Request =
  Method :: string
  URL :: string
  ContentType :: string
  Payload :: string

text \<open>
  The response body as \<^verbatim>\<open>bufio.Scanner\<close> delivers it. Each element of \<open>Scanned\<close> is one
  call of \<^verbatim>\<open>Scan\<close> that returned true: the token \<^verbatim>\<open>Bytes()\<close> and what \<^verbatim>\<open>Err()\<close> would
  report at that moment. \<open>ScanErr\<close> is what \<^verbatim>\<open>Err()\<close> reports once \<^verbatim>\<open>Scan\<close> has returned
  false.
\<close>

record http_Response =
  StatusCode :: int
  Scanned :: "(string \<times> go_error option) list"
  ScanErr :: "go_error option"

record AskRequest =
  AskQuestion :: string

text \<open>
  What the code takes from outside the repository: \<^verbatim>\<open>json.Marshal\<close> of the payload,
  the error of \<^verbatim>\<open>http.NewRequestWithContext\<close> for a method and a URL,
  \<^verbatim>\<open>client.Do\<close> (the network and the upstream server), \<^verbatim>\<open>json.Unmarshal\<close> of one line
  (\<^const>\<open>None\<close> when it returns an error), and the handler's decoder with
  \<^verbatim>\<open>DisallowUnknownFields\<close> on a request body. Every theorem holds for all of them.
\<close>

record world =
  json_Marshal :: "OllamaRequest \<Rightarrow> go_error + string"
  http_NewRequest :: "string \<Rightarrow> string \<Rightarrow> go_error option"
  client_Do :: "http_Request \<Rightarrow> go_error + http_Response"
  json_Unmarshal :: "string \<Rightarrow> OllamaResponse option"
  json_Decode :: "string \<Rightarrow> AskRequest option"

text \<open>\<^verbatim>\<open>sanitizeInput\<close>, lines 145-153.\<close>

definition sanitizeInput :: "string \<Rightarrow> string" where
  "sanitizeInput input = filter (\<lambda>c. c \<noteq> CHR 0x00) (TrimSpace input)"

definition prompt_template :: string where
  "prompt_template =
     ''Pretend that you are a Ouija board. As a mystical Ouija board, answer the following question in a short answer. '' @
     ''Respond without using any actions, such as *smiles*, *laughs*, or any text within asterisks. '' @
     ''If the question is a yes or no question, answer with a yes or a no. '' @
     ''If the user says goodbye, bye, or farewell, respond with '' @ [CHR 0x27] @ ''Goodbye.'' @ [CHR 0x27] @ '' Question: ''"

definition fallback :: string where
  "fallback = ''The spirits cannot answer at this time. Try again later.''"

text \<open>
  The loop of lines 113-130 over the scanner, with the builder's content so far. It
  returns the content at the loop's exit and what \<^verbatim>\<open>scanner.Err()\<close> reports there.
\<close>

fun scan_loop ::
  "(string \<Rightarrow> OllamaResponse option) \<Rightarrow> (string \<times> go_error option) list \<Rightarrow> go_error option \<Rightarrow>
   string \<Rightarrow> string \<times> go_error option" where
  "scan_loop unmarshal [] fin answer = (answer, fin)"
| "scan_loop unmarshal ((line, e) # rest) fin answer =
     (if length line = 0 then scan_loop unmarshal rest fin answer
      else case unmarshal line of
        None \<Rightarrow> scan_loop unmarshal rest fin answer
      | Some ollamaResp \<Rightarrow>
          if Done ollamaResp then (answer @ Response ollamaResp, e)
          else scan_loop unmarshal rest fin (answer @ Response ollamaResp))"

text \<open>
  \<^verbatim>\<open>GenerateAnswer\<close>, lines 58-142: the returned pair, and the requests it handed to
  \<^verbatim>\<open>client.Do\<close>.
\<close>

definition GenerateAnswer ::
  "world \<Rightarrow> OllamaClient \<Rightarrow> string \<Rightarrow> (string \<times> go_error option) \<times> http_Request list" where
  "GenerateAnswer w c question =
     (if length question > 1000 then (([], Some (ErrorString ''question too long'')), [])
      else
        (let question = sanitizeInput question;
             prompt = prompt_template @ question;
             reqPayload = \<lparr>Model = model c, Prompt = prompt, Stream = True,
                           Options = \<lparr>NumPredict = maxTokens c\<rparr>\<rparr>
         in (case json_Marshal w reqPayload of
               Inl err \<Rightarrow> (([], Some (Wrapped ''failed to marshal request'' err)), [])
             | Inr jsonData \<Rightarrow>
                 (case http_NewRequest w ''POST'' (url c) of
                    Some err \<Rightarrow> (([], Some (Wrapped ''failed to create request'' err)), [])
                  | None \<Rightarrow>
                      (let req = \<lparr>Method = ''POST'', URL = url c,
                                  ContentType = ''application/json'', Payload = jsonData\<rparr>
                       in (case client_Do w req of
                             Inl err \<Rightarrow> ((fallback, None), [req])
                           | Inr resp \<Rightarrow>
                               (if StatusCode resp \<noteq> 200 then ((fallback, None), [req])
                                else
                                  (case scan_loop (json_Unmarshal w) (Scanned resp) (ScanErr resp) [] of
                                     (answer, err) \<Rightarrow>
                                       (if err \<noteq> None \<and> err \<noteq> Some io_EOF then
                                          ((fallback, None), [req])
                                        else
                                          (let result = TrimSpace answer
                                           in (if result = [] then ((fallback, None), [req])
                                               else ((result, None), [req]))))))))))))"

text \<open>
  The spec's reading of the stream: the fragments that parse, in arrival order (empty
  lines are never parsed), cut after the first one whose completion flag is set.
\<close>

definition parsed_fragments ::
  "(string \<Rightarrow> OllamaResponse option) \<Rightarrow> (string \<times> go_error option) list \<Rightarrow> OllamaResponse list" where
  "parsed_fragments unmarshal toks =
     List.map_filter unmarshal (filter (\<lambda>line. line \<noteq> []) (map fst toks))"

definition upto_done :: "OllamaResponse list \<Rightarrow> OllamaResponse list" where
  "upto_done fs = takeWhile (\<lambda>f. \<not> Done f) fs @ take 1 (dropWhile (\<lambda>f. \<not> Done f) fs)"

definition aggregated :: "world \<Rightarrow> http_Response \<Rightarrow> string" where
  "aggregated w resp =
     concat (map Response (upto_done (parsed_fragments (json_Unmarshal w) (Scanned resp))))"

text \<open>
  What \<^verbatim>\<open>scanner.Err()\<close> reports where the aggregation ends: at the first parsed
  fragment whose completion flag is set, or else at the end of the stream.
\<close>

fun exit_err ::
  "(string \<Rightarrow> OllamaResponse option) \<Rightarrow> (string \<times> go_error option) list \<Rightarrow> go_error option \<Rightarrow>
   go_error option" where
  "exit_err unmarshal [] fin = fin"
| "exit_err unmarshal ((line, e) # rest) fin =
     (if line \<noteq> [] \<and> (case unmarshal line of None \<Rightarrow> False | Some f \<Rightarrow> Done f) then e
      else exit_err unmarshal rest fin)"

text \<open>
  The spec's upstream failures of a call that was made: a connection failure, a status
  other than 200, a scanner error other than a clean end of stream, or an aggregated
  result that is empty once trimmed.
\<close>

definition upstream_failure :: "world \<Rightarrow> go_error + http_Response \<Rightarrow> bool" where
  "upstream_failure w res =
     (case res of
        Inl err \<Rightarrow> True
      | Inr resp \<Rightarrow>
          StatusCode resp \<noteq> 200
        \<or> (case exit_err (json_Unmarshal w) (Scanned resp) (ScanErr resp) of
              None \<Rightarrow> False
            | Some e \<Rightarrow> e \<noteq> io_EOF)
        \<or> TrimSpace (aggregated w resp) = [])"

section \<open>handlers.go: the request handler\<close>

text \<open>
  An inbound request: \<^verbatim>\<open>http.Header\<close> maps a key to its values (none when the header
  is absent), and \<^verbatim>\<open>Header.Get\<close> returns the first value or the empty string. Both
  keys looked up below are written in canonical form.
\<close>

record Request =
  Header :: "string \<Rightarrow> string list"
  RemoteAddr :: string
  Body :: string

definition Header_Get :: "(string \<Rightarrow> string list) \<Rightarrow> string \<Rightarrow> string" where
  "Header_Get h key = (case h key of [] \<Rightarrow> [] | v # _ \<Rightarrow> v)"

text \<open>What \<^verbatim>\<open>respondWithJSON\<close> writes: the status code and the value it encodes.\<close>

datatype payload = ErrorResponse string | AskResponse string

record reply =
  status :: int
  content :: payload

definition respondWithJSON :: "payload \<Rightarrow> int \<Rightarrow> reply" where
  "respondWithJSON p statusCode = \<lparr>status = statusCode, content = p\<rparr>"

definition respondWithError :: "string \<Rightarrow> int \<Rightarrow> reply" where
  "respondWithError message statusCode = respondWithJSON (ErrorResponse message) statusCode"

record App =
  storage :: MemoryStorage
  ollama :: OllamaClient

datatype log_entry = Error_generating_answer go_error | Error_storing_pair go_error

text \<open>
  What one call of the handler does: the reply written (none when the handler
  panicked before writing one), the store it leaves, the inference requests it sent
  and the lines it logged.
\<close>

record handled =
  response :: "reply option"
  store :: MemoryStorage
  sent :: "http_Request list"
  logged :: "log_entry list"

definition rejected :: "App \<Rightarrow> reply \<Rightarrow> handled" where
  "rejected app rep = \<lparr>response = Some rep, store = storage app, sent = [], logged = []\<rparr>"

text \<open>\<^verbatim>\<open>askHandler\<close>, lines 49-99.\<close>

definition askHandler :: "world \<Rightarrow> App \<Rightarrow> Request \<Rightarrow> handled" where
  "askHandler w app r =
     (if \<not> Contains (Header_Get (Header r) ''Content-Type'') ''application/json'' then
        rejected app (respondWithError ''Content-Type must be application/json'' 400)
      else case json_Decode w (Body r) of
        None \<Rightarrow> rejected app (respondWithError ''Invalid request format'' 400)
      | Some req \<Rightarrow>
          if length (AskQuestion req) > 1000 then
            rejected app (respondWithError ''Question too long (max 1000 characters)'' 400)
          else if TrimSpace (AskQuestion req) = [] then
            rejected app (respondWithError ''Question cannot be empty'' 400)
          else
            (case GenerateAnswer w (ollama app) (AskQuestion req) of
               ((answer, Some err), reqs) \<Rightarrow>
                 \<lparr>response = Some (respondWithError ''Failed to generate answer'' 500),
                  store = storage app, sent = reqs, logged = [Error_generating_answer err]\<rparr>
             | ((answer, None), reqs) \<Rightarrow>
                 (let pair = \<lparr>Question = AskQuestion req, Answer = answer\<rparr>
                  in (case Add (storage app) pair of
                        (Panics, st) \<Rightarrow>
                          \<lparr>response = None, store = st, sent = reqs, logged = []\<rparr>
                      | (Returns (Some err), st) \<Rightarrow>
                          \<lparr>response = Some (respondWithJSON (AskResponse answer) 200),
                           store = st, sent = reqs, logged = [Error_storing_pair err]\<rparr>
                      | (Returns None, st) \<Rightarrow>
                          \<lparr>response = Some (respondWithJSON (AskResponse answer) 200),
                           store = st, sent = reqs, logged = []\<rparr>))))"

section \<open>middleware.go: admission control\<close>

text \<open>A Go \<^verbatim>\<open>int\<close> is 64 bits wide; \<open>int64\<close> is the value an arithmetic result wraps to.\<close>

definition int64 :: "int \<Rightarrow> int" where
  "int64 x = (x + 2 ^ 63) mod 2 ^ 64 - 2 ^ 63"

text \<open>
  Modelled from the spec: the token bucket of \<^verbatim>\<open>golang.org/x/time/rate\<close>, which is not
  among the repository's files. The spec's \<open>ClientRateState\<close> has a capacity, a refill
  rate in tokens per second and the available tokens. Time is in seconds;
  \<open>lastRefill\<close> is the time of the previous call, none before the first. The
  conversion \<^verbatim>\<open>rate.Limit(rl.rate)\<close> of the rate to a float is taken as exact.
\<close>

record Limiter =
  capacity :: int
  refillRate :: int
  availableTokens :: rat
  lastRefill :: "rat option"

text \<open>
  Modelled from the spec: \<^verbatim>\<open>rate.NewLimiter(r, b)\<close>, a bucket of capacity \<open>b\<close> and refill
  rate \<open>r\<close> that starts full.
\<close>

definition rate_NewLimiter :: "int \<Rightarrow> int \<Rightarrow> Limiter" where
  "rate_NewLimiter r b =
     \<lparr>capacity = b, refillRate = r, availableTokens = of_int b, lastRefill = None\<rparr>"

text \<open>
  Modelled from the spec: the reserve at time \<open>now\<close>, refilled continuously at the
  refill rate since the previous call and capped at the capacity.
\<close>

definition refilled :: "Limiter \<Rightarrow> rat \<Rightarrow> rat" where
  "refilled bucket now =
     (case lastRefill bucket of
        None \<Rightarrow> availableTokens bucket
      | Some t \<Rightarrow>
          min (of_int (capacity bucket))
              (availableTokens bucket + of_int (refillRate bucket) * max 0 (now - t)))"

text \<open>
  Modelled from the spec: \<^verbatim>\<open>Allow\<close> withdraws one token and reports true when one is
  available, and reports false, withdrawing nothing, otherwise.
\<close>

definition Allow :: "Limiter \<Rightarrow> rat \<Rightarrow> bool \<times> Limiter" where
  "Allow bucket now =
     (let tokens = refilled bucket now in
      if 1 \<le> tokens then (True, bucket\<lparr>availableTokens := tokens - 1, lastRefill := Some now\<rparr>)
      else (False, bucket\<lparr>availableTokens := tokens, lastRefill := Some now\<rparr>))"

text \<open>
  \<^verbatim>\<open>rateLimiter\<close>, without its mutex. The map holds pointers, so what \<^verbatim>\<open>Allow\<close> does to
  a limiter is seen through the map: \<open>allow\<close> below writes the limiter back. The
  goroutine that deletes the entry five minutes later runs outside the calls modelled
  here.
\<close>

record rateLimiter =
  limiters :: "string \<rightharpoonup> Limiter"
  rate :: int

definition newRateLimiter :: "int \<Rightarrow> rateLimiter" where
  "newRateLimiter requestsPerSecond = \<lparr>limiters = Map.empty, rate = requestsPerSecond\<rparr>"

text \<open>\<^verbatim>\<open>getLimiter\<close>, lines 446-465.\<close>

definition getLimiter :: "rateLimiter \<Rightarrow> string \<Rightarrow> Limiter \<times> rateLimiter" where
  "getLimiter rl ip =
     (case limiters rl ip of
        Some limiter \<Rightarrow> (limiter, rl)
      | None \<Rightarrow>
          let limiter = rate_NewLimiter (rate rl) (int64 (rate rl * 2))
          in (limiter, rl\<lparr>limiters := (limiters rl)(ip \<mapsto> limiter)\<rparr>))"

text \<open>\<^verbatim>\<open>limiter.getLimiter(ip).Allow()\<close> at time \<open>now\<close>.\<close>

definition allow :: "rateLimiter \<Rightarrow> string \<Rightarrow> rat \<Rightarrow> bool \<times> rateLimiter" where
  "allow rl ip now =
     (case getLimiter rl ip of
        (limiter, rl1) \<Rightarrow>
          (case Allow limiter now of
             (ok, limiter1) \<Rightarrow> (ok, rl1\<lparr>limiters := (limiters rl1)(ip \<mapsto> limiter1)\<rparr>)))"

text \<open>
  \<^verbatim>\<open>rateLimitMiddleware\<close>, lines 468-488, around a handler \<open>next\<close>: the limiter state it
  leaves, and either the reply it wrote itself or what \<open>next\<close> did.
\<close>

definition rateLimitMiddleware ::
  "rateLimiter \<Rightarrow> rat \<Rightarrow> (Request \<Rightarrow> 'a) \<Rightarrow> Request \<Rightarrow> rateLimiter \<times> (reply + 'a)" where
  "rateLimitMiddleware limiter now next r =
     (let ip = RemoteAddr r;
          forwarded = Header_Get (Header r) ''X-Forwarded-For'';
          ip = (if forwarded \<noteq> [] then forwarded else ip)
      in case allow limiter ip now of
        (ok, limiter1) \<Rightarrow>
          if \<not> ok then (limiter1, Inl (respondWithError ''Rate limit exceeded'' 429))
          else (limiter1, Inr (next r)))"

text \<open>
  \<^verbatim>\<open>POST /ask\<close> as \<^verbatim>\<open>main\<close> wires it: the admission controller in front of the handler.
  The logging and the security-header middleware add a log line and response headers
  and are left out.
\<close>

definition serve_ask :: "world \<Rightarrow> rateLimiter \<Rightarrow> App \<Rightarrow> rat \<Rightarrow> Request \<Rightarrow> rateLimiter \<times> handled" where
  "serve_ask w limiter app now r =
     (case rateLimitMiddleware limiter now (askHandler w app) r of
        (limiter1, Inl rep) \<Rightarrow> (limiter1, rejected app rep)
      | (limiter1, Inr h) \<Rightarrow> (limiter1, h))"

text \<open>The results of \<open>n\<close> calls of \<open>allow\<close> for one identity at the same instant.\<close>

fun allow_burst :: "nat \<Rightarrow> rateLimiter \<Rightarrow> string \<Rightarrow> rat \<Rightarrow> bool list \<times> rateLimiter" where
  "allow_burst 0 rl ip now = ([], rl)"
| "allow_burst (Suc n) rl ip now =
     (case allow rl ip now of
        (ok, rl1) \<Rightarrow> (case allow_burst n rl1 ip now of (oks, rl2) \<Rightarrow> (ok # oks, rl2)))"

text \<open>
  The spec's client identity: the value of the forwarded-for header when the header is
  present and its (first) value is not empty, and the peer address otherwise.
\<close>

definition client_identity :: "Request \<Rightarrow> string" where
  "client_identity r =
     (case Header r ''X-Forwarded-For'' of
        [] \<Rightarrow> RemoteAddr r
      | v # vs \<Rightarrow> if v = [] then RemoteAddr r else v)"

section \<open>Sample inputs\<close>

text \<open>
  Concrete requests, upstream answers and library results on which the theorems below
  are run. The sample decoders agree with \<^verbatim>\<open>encoding/json\<close> on the sample bodies and
  lines and reject everything else.
\<close>

definition sample_client :: OllamaClient where
  "sample_client = NewOllamaClient ''http://localhost:11434/api/generate'' ''qwen3'' 30000000000 10"

definition long_question :: string where
  "long_question = CHR ''a'' # replicate 1000 (CHR '' '')"

definition long_body :: string where
  \<open>long_body = ''{"question":"'' @ long_question @ ''"}''\<close>

definition sample_Unmarshal :: "string \<Rightarrow> OllamaResponse option" where
  \<open>sample_Unmarshal line =
     (if line = ''{"response":" Yes","done":false}'' then Some \<lparr>Response = '' Yes'', Done = False\<rparr>
      else if line = ''{"response":".","done":true}'' then Some \<lparr>Response = ''.'', Done = True\<rparr>
      else if line = ''{"response":" ","done":true}'' then Some \<lparr>Response = '' '', Done = True\<rparr>
      else None)\<close>

definition sample_Decode :: "string \<Rightarrow> AskRequest option" where
  \<open>sample_Decode body =
     (if body = ''{"question":""}'' then Some \<lparr>AskQuestion = []\<rparr>
      else if body = ''{"question":"Is anyone there?"}'' then Some \<lparr>AskQuestion = ''Is anyone there?''\<rparr>
      else if body = long_body then Some \<lparr>AskQuestion = long_question\<rparr>
      else None)\<close>

text \<open>A world in which request construction succeeds and the upstream call ends as \<open>res\<close>.\<close>

definition sample_world :: "go_error + http_Response \<Rightarrow> world" where
  \<open>sample_world res =
     \<lparr>json_Marshal = (\<lambda>p. Inr (''{"model":"'' @ Model p @ ''","prompt":"'' @ Prompt p @ ''","stream":true}'')),
      http_NewRequest = (\<lambda>m u. None),
      client_Do = (\<lambda>req. res),
      json_Unmarshal = sample_Unmarshal,
      json_Decode = sample_Decode\<rparr>\<close>

text \<open>A world in which \<^verbatim>\<open>http.NewRequestWithContext\<close> rejects the configured URL.\<close>

definition bad_url_world :: world where
  "bad_url_world =
     (sample_world (Inl (ErrorString ''unreachable'')))
       \<lparr>http_NewRequest := (\<lambda>m u. Some (ErrorString ''invalid URL''))\<rparr>"

definition sample_request :: "string \<Rightarrow> Request" where
  "sample_request body =
     \<lparr>Header = (\<lambda>key. if key = ''Content-Type'' then [''application/json''] else []),
      RemoteAddr = ''192.0.2.7:51234'',
      Body = body\<rparr>"

definition forwarded_request :: Request where
  "forwarded_request =
     \<lparr>Header = (\<lambda>key. if key = ''X-Forwarded-For'' then [''203.0.113.9''] else []),
      RemoteAddr = ''192.0.2.7:51234'',
      Body = []\<rparr>"

definition sample_app :: App where
  "sample_app = \<lparr>storage = NewMemoryStorage 1000, ollama = sample_client\<rparr>"

text \<open>
  A streamed answer: two fragments around a malformed line and an empty one, the second
  fragment complete, and a line after it that is never read.
\<close>

definition sample_stream :: http_Response where
  \<open>sample_stream =
     \<lparr>StatusCode = 200,
      Scanned = [(''{"response":" Yes","done":false}'', None), (''{"response": Ye'', None), ([], None),
                 (''{"response":".","done":true}'', None), (''{"response":" Yes","done":false}'', None)],
      ScanErr = None\<rparr>\<close>

text \<open>A store in memory that holds one pair, with capacity 2.\<close>

definition sample_heap :: heap where
  "sample_heap = [ [\<lparr>Question = ''q1'', Answer = ''a1''\<rparr>] ]"

definition sample_storage_mem :: MemoryStorage_mem where
  "sample_storage_mem = \<lparr>mem_maxSize = 2, mem_pairs = \<lparr>arr = 0, off = 0, len = 1, cap = 1\<rparr>\<rparr>"

section \<open>Properties of the history store\<close>

lemma most_recent_length: "length (most_recent n xs) = min n (length xs)"
  by (simp add: most_recent_def)

lemma most_recent_all: "length xs \<le> n \<Longrightarrow> most_recent n xs = xs"
  by (simp add: most_recent_def)

lemma most_recent_append:
  "most_recent n (most_recent n xs @ ys) = most_recent n (xs @ ys)"
proof (cases "length xs \<le> n")
  case True
  then show ?thesis by (simp add: most_recent_def)
next
  case False
  define k where "k = length xs - n"
  from False have len: "length xs = k + n" by (simp add: k_def)
  have "most_recent n (xs @ ys) = drop (length ys) (drop k (xs @ ys))"
    by (simp add: most_recent_def len add.commute)
  also have "\<dots> = drop (length ys) (drop k xs @ ys)"
    by (simp add: len)
  also have "\<dots> = most_recent n (drop k xs @ ys)"
    by (simp add: most_recent_def len)
  finally show ?thesis by (simp add: most_recent_def k_def)
qed

lemma Add_nonneg:
  assumes "0 \<le> maxSize s"
  shows "Add s p = (Returns None, s\<lparr>pairs := most_recent (nat (maxSize s)) (pairs s @ [p])\<rparr>)"
proof (cases "int (length (pairs s)) + 1 > maxSize s")
  case True
  from assms
  have "nat (1 + int (length (pairs s)) - maxSize s) = length (pairs s @ [p]) - nat (maxSize s)"
    by simp
  then have "drop (nat (1 + int (length (pairs s)) - maxSize s)) (pairs s @ [p])
      = most_recent (nat (maxSize s)) (pairs s @ [p])"
    by (simp only: most_recent_def)
  with assms True show ?thesis
    by (simp add: Add_def Let_def slice_from_def del: drop_append)
next
  case False
  then have "length (pairs s @ [p]) \<le> nat (maxSize s)" by simp
  then have "most_recent (nat (maxSize s)) (pairs s @ [p]) = pairs s @ [p]"
    by (rule most_recent_all)
  with False show ?thesis by (simp add: Add_def Let_def)
qed

lemma Add_negative:
  assumes "maxSize s < 0"
  shows "Add s p = (Panics, s\<lparr>pairs := pairs s @ [p]\<rparr>)"
  using assms by (simp add: Add_def Let_def slice_from_def)

lemma GetAll_pairs: "GetAll s = (pairs s, None)"
  by (simp add: GetAll_def make_slice_def copy_slice_def)

lemma Add_all_nonneg:
  "0 \<le> maxSize s \<Longrightarrow>
   Add_all s ps =
     (replicate (length ps) (Returns None),
      s\<lparr>pairs := (if ps = [] then pairs s else most_recent (nat (maxSize s)) (pairs s @ ps))\<rparr>)"
proof (induction ps arbitrary: s)
  case Nil
  then show ?case by simp
next
  case (Cons p ps)
  let ?s1 = "s\<lparr>pairs := most_recent (nat (maxSize s)) (pairs s @ [p])\<rparr>"
  have step: "Add s p = (Returns None, ?s1)" using Cons.prems by (rule Add_nonneg)
  have "0 \<le> maxSize ?s1" using Cons.prems by simp
  from Cons.IH [OF this] step show ?case
    using most_recent_append [of "nat (maxSize s)" "pairs s @ [p]" ps]
    by (cases "ps = []") simp_all
qed

lemma Add_outcome: "fst (Add s p) = Returns None \<or> fst (Add s p) = Panics"
  by (simp add: Add_def Let_def split: option.split)

lemma Add_no_error: "Add s p \<noteq> (Returns (Some e), s')"
  using Add_outcome [of s p] by (cases "Add s p") auto

text \<open>
  Claim C2, amended. For a store whose \<open>maxSize\<close> is not negative, whatever log it
  holds: \<^verbatim>\<open>Add\<close> returns nil and leaves at most \<open>maxSize\<close> entries, namely the most recent
  \<open>maxSize\<close> of the old log followed by the new pair; so does every non-empty run of
  \<^verbatim>\<open>Add\<close> calls; and on a store made by \<^verbatim>\<open>NewMemoryStorage\<close>, after the pairs \<open>ps\<close> have
  been added, \<^verbatim>\<open>GetAll\<close> returns the last \<open>maxSize\<close> of them in insertion order, exactly
  \<open>maxSize\<close> many when more than \<open>maxSize\<close> were added.
\<close>

theorem history_keeps_most_recent:
  assumes "0 \<le> maxSize s"
  shows "fst (Add s p) = Returns None
       \<and> int (length (pairs (snd (Add s p)))) \<le> maxSize s
       \<and> pairs (snd (Add s p)) = most_recent (nat (maxSize s)) (pairs s @ [p])
       \<and> (ps \<noteq> [] \<longrightarrow>
            int (length (pairs (snd (Add_all s ps)))) \<le> maxSize s
          \<and> pairs (snd (Add_all s ps)) = most_recent (nat (maxSize s)) (pairs s @ ps))
       \<and> fst (GetAll (snd (Add_all (NewMemoryStorage (maxSize s)) ps))) = most_recent (nat (maxSize s)) ps
       \<and> (maxSize s < int (length ps) \<longrightarrow>
            length (fst (GetAll (snd (Add_all (NewMemoryStorage (maxSize s)) ps)))) = nat (maxSize s))"
proof -
  let ?n = "nat (maxSize s)"
  have one: "Add s p = (Returns None, s\<lparr>pairs := most_recent ?n (pairs s @ [p])\<rparr>)"
    using assms by (rule Add_nonneg)
  have many: "Add_all s ps =
     (replicate (length ps) (Returns None),
      s\<lparr>pairs := (if ps = [] then pairs s else most_recent ?n (pairs s @ ps))\<rparr>)"
    using assms by (rule Add_all_nonneg)
  have "0 \<le> maxSize (NewMemoryStorage (maxSize s))"
    using assms by (simp add: NewMemoryStorage_def)
  from Add_all_nonneg [OF this, of ps]
  have fresh: "pairs (snd (Add_all (NewMemoryStorage (maxSize s)) ps)) = most_recent ?n ps"
    by (simp add: NewMemoryStorage_def most_recent_def)
  have bound: "int (length (most_recent ?n xs)) \<le> maxSize s" for xs :: "QAPair list"
    using assms by (simp add: most_recent_length)
  have full: "maxSize s < int (length ps) \<Longrightarrow> length (most_recent ?n ps) = ?n"
    using assms by (simp add: most_recent_length)
  show ?thesis
    using bound full by (simp add: one many fresh GetAll_pairs)
qed

text \<open>A store of capacity 2 that is given three pairs keeps the last two, in order.\<close>

theorem history_keeps_most_recent_witness:
  "0 \<le> maxSize (NewMemoryStorage 2)
   \<and> [\<lparr>Question = ''q1'', Answer = ''a1''\<rparr>, \<lparr>Question = ''q2'', Answer = ''a2''\<rparr>,
       \<lparr>Question = ''q3'', Answer = ''a3''\<rparr>] \<noteq> []
   \<and> maxSize (NewMemoryStorage 2) < int (length [\<lparr>Question = ''q1'', Answer = ''a1''\<rparr>,
       \<lparr>Question = ''q2'', Answer = ''a2''\<rparr>, \<lparr>Question = ''q3'', Answer = ''a3''\<rparr>])
   \<and> fst (GetAll (snd (Add_all (NewMemoryStorage 2)
         [\<lparr>Question = ''q1'', Answer = ''a1''\<rparr>, \<lparr>Question = ''q2'', Answer = ''a2''\<rparr>,
          \<lparr>Question = ''q3'', Answer = ''a3''\<rparr>])))
       = [\<lparr>Question = ''q2'', Answer = ''a2''\<rparr>, \<lparr>Question = ''q3'', Answer = ''a3''\<rparr>]"
  using history_keeps_most_recent [of "NewMemoryStorage 2" "\<lparr>Question = ''q1'', Answer = ''a1''\<rparr>"
      "[\<lparr>Question = ''q1'', Answer = ''a1''\<rparr>, \<lparr>Question = ''q2'', Answer = ''a2''\<rparr>,
          \<lparr>Question = ''q3'', Answer = ''a3''\<rparr>]"]
  by (simp add: NewMemoryStorage_def most_recent_def)

text \<open>
  With \<^verbatim>\<open>MAX_HISTORY_SIZE=-1\<close> the first \<^verbatim>\<open>Add\<close> stores the pair, then panics in
  \<^verbatim>\<open>s.pairs[2:]\<close>: the log holds one entry, more than \<open>maxSize\<close>.
\<close>

theorem history_negative_capacity_counterexample:
  "fst (Add (NewMemoryStorage (- 1)) \<lparr>Question = ''q'', Answer = ''a''\<rparr>) = Panics
   \<and> \<not> int (length (pairs (snd (Add (NewMemoryStorage (- 1)) \<lparr>Question = ''q'', Answer = ''a''\<rparr>))))
        \<le> maxSize (snd (Add (NewMemoryStorage (- 1)) \<lparr>Question = ''q'', Answer = ''a''\<rparr>))"
  by (simp add: Add_def NewMemoryStorage_def slice_from_def Let_def)

text \<open>
  Claim C10, amended. On a store whose \<open>maxSize\<close> is not negative \<^verbatim>\<open>Add\<close> returns a nil
  error. On no store and for no pair does it return an error that is not nil, so
  \<^verbatim>\<open>askHandler\<close> never logs a storage failure.
\<close>

theorem Add_returns_nil:
  "(0 \<le> maxSize s \<longrightarrow> fst (Add s p) = Returns None)
   \<and> (\<forall>e. fst (Add s p) \<noteq> Returns (Some e))
   \<and> (\<forall>e. Error_storing_pair e \<notin> set (logged (askHandler w app r)))"
proof -
  have a: "0 \<le> maxSize s \<longrightarrow> fst (Add s p) = Returns None"
    by (simp add: Add_nonneg)
  have b: "\<forall>e. fst (Add s p) \<noteq> Returns (Some e)"
    using Add_outcome [of s p] by auto
  have c: "Error_storing_pair e \<notin> set (logged (askHandler w app r))" for e
  proof -
    have "logged (askHandler w app r) = []
        \<or> (\<exists>err. logged (askHandler w app r) = [Error_generating_answer err])"
      by (auto simp: askHandler_def rejected_def Let_def Add_no_error
          split: option.splits prod.splits outcome.splits)
    then show ?thesis by auto
  qed
  from a b c show ?thesis by blast
qed

theorem Add_returns_nil_witness:
  "0 \<le> maxSize (NewMemoryStorage 2)
   \<and> fst (Add (NewMemoryStorage 2) \<lparr>Question = ''q'', Answer = ''a''\<rparr>) = Returns None"
  using Add_returns_nil [of "NewMemoryStorage 2" "\<lparr>Question = ''q'', Answer = ''a''\<rparr>"]
  by (simp add: NewMemoryStorage_def)

text \<open>On a store made by \<^verbatim>\<open>NewMemoryStorage(-1)\<close>, \<^verbatim>\<open>Add\<close> does not return nil: it panics.\<close>

theorem Add_panics_counterexample:
  "fst (Add (NewMemoryStorage (- 1)) \<lparr>Question = ''q'', Answer = ''a''\<rparr>) \<noteq> Returns None"
  by (simp add: Add_def NewMemoryStorage_def slice_from_def Let_def)

section \<open>Properties of the inference client\<close>

lemma strip_runes_stop: "rune_width encs s = 0 \<Longrightarrow> strip_runes encs s = s"
  by (subst strip_runes.simps) simp

lemma strip_runes_step:
  "rune_width encs s = Suc n \<Longrightarrow> strip_runes encs s = strip_runes encs (drop (Suc n) s)"
  by (subst strip_runes.simps) simp

lemmas TrimSpace_eval = TrimSpace_def space_runes_def strip_runes_stop strip_runes_step

lemma strip_runes_length: "length (strip_runes encs s) \<le> length s"
proof (induction encs s rule: strip_runes.induct)
  case (1 encs s)
  show ?case
  proof (cases "rune_width encs s = 0")
    case True
    then show ?thesis by (simp add: strip_runes_stop)
  next
    case False
    from "1" [OF False] have "length (strip_runes encs (drop (rune_width encs s) s)) \<le> length s"
      by simp
    with False show ?thesis by (subst strip_runes.simps) simp
  qed
qed

lemma TrimSpace_length: "length (TrimSpace s) \<le> length s"
proof -
  have "length (TrimSpace s) \<le> length (rev (strip_runes space_runes s))"
    unfolding TrimSpace_def length_rev [of "strip_runes (map rev space_runes) (rev (strip_runes space_runes s))"]
    by (rule strip_runes_length)
  also have "\<dots> \<le> length s" by (simp add: strip_runes_length)
  finally show ?thesis .
qed

lemma scan_loop_eq:
  "scan_loop um toks fin acc =
     (acc @ concat (map Response (upto_done (parsed_fragments um toks))), exit_err um toks fin)"
proof (induction toks arbitrary: acc)
  case Nil
  then show ?case by (simp add: upto_done_def parsed_fragments_def)
next
  case (Cons tok toks)
  obtain line e where tok: "tok = (line, e)" by (cases tok)
  show ?case
  proof (cases "line = []")
    case True
    with Cons.IH tok show ?thesis by (simp add: parsed_fragments_def)
  next
    case False
    show ?thesis
    proof (cases "um line")
      case None
      with Cons.IH tok False show ?thesis
        by (simp add: parsed_fragments_def)
    next
      case (Some f)
      have pf: "parsed_fragments um ((line, e) # toks) = f # parsed_fragments um toks"
        using False Some by (simp add: parsed_fragments_def)
      show ?thesis
      proof (cases "Done f")
        case True
        with tok False Some show ?thesis by (simp add: pf upto_done_def)
      next
        case nd: False
        have "upto_done (f # parsed_fragments um toks) = f # upto_done (parsed_fragments um toks)"
          using nd by (simp add: upto_done_def)
        with Cons.IH [of "acc @ Response f"] tok False Some nd show ?thesis
          by (simp add: pf)
      qed
    qed
  qed
qed

lemma GenerateAnswer_sent:
  assumes "snd (GenerateAnswer w c question) = [req]"
  shows "fst (GenerateAnswer w c question) =
     (if upstream_failure w (client_Do w req) then (fallback, None)
      else (TrimSpace (aggregated w (projr (client_Do w req))), None))"
proof -
  let ?payload = "\<lparr>Model = model c, Prompt = prompt_template @ sanitizeInput question, Stream = True,
                          Options = \<lparr>NumPredict = maxTokens c\<rparr>\<rparr>"
  have short: "\<not> length question > 1000"
    using assms by (auto simp: GenerateAnswer_def)
  obtain jsonData where m: "json_Marshal w ?payload = Inr jsonData"
    using assms short by (cases "json_Marshal w ?payload") (simp_all add: GenerateAnswer_def Let_def)
  have n: "http_NewRequest w ''POST'' (url c) = None"
    using assms short m
    by (cases "http_NewRequest w ''POST'' (url c)") (simp_all add: GenerateAnswer_def Let_def)
  let ?req = "\<lparr>Method = ''POST'', URL = url c, ContentType = ''application/json'', Payload = jsonData\<rparr>"
  have unfold: "GenerateAnswer w c question =
     (case client_Do w ?req of
        Inl err \<Rightarrow> ((fallback, None), [?req])
      | Inr resp \<Rightarrow>
          (if StatusCode resp \<noteq> 200 then ((fallback, None), [?req])
           else (case scan_loop (json_Unmarshal w) (Scanned resp) (ScanErr resp) [] of
                   (answer, err) \<Rightarrow>
                     (if err \<noteq> None \<and> err \<noteq> Some io_EOF then ((fallback, None), [?req])
                      else if TrimSpace answer = [] then ((fallback, None), [?req])
                      else ((TrimSpace answer, None), [?req])))))"
    using short m n unfolding GenerateAnswer_def Let_def by simp
  have req: "req = ?req"
    using assms unfolding unfold by (simp split: sum.splits if_splits prod.splits)
  show ?thesis
  proof (cases "client_Do w ?req")
    case (Inl err)
    then show ?thesis unfolding unfold req by (simp add: upstream_failure_def)
  next
    case (Inr resp)
    then show ?thesis unfolding unfold req
      by (simp add: upstream_failure_def scan_loop_eq aggregated_def split: option.splits)
  qed
qed

lemma GenerateAnswer_long:
  "1000 < length question \<Longrightarrow>
   GenerateAnswer w c question = (([], Some (ErrorString ''question too long'')), [])"
  by (simp add: GenerateAnswer_def)

lemma GenerateAnswer_marshal_fails:
  "\<not> 1000 < length question \<Longrightarrow>
   json_Marshal w \<lparr>Model = model c, Prompt = prompt_template @ sanitizeInput question, Stream = True,
                    Options = \<lparr>NumPredict = maxTokens c\<rparr>\<rparr> = Inl err \<Longrightarrow>
   GenerateAnswer w c question = (([], Some (Wrapped ''failed to marshal request'' err)), [])"
  unfolding GenerateAnswer_def Let_def by simp

lemma GenerateAnswer_request_fails:
  "\<not> 1000 < length question \<Longrightarrow>
   json_Marshal w \<lparr>Model = model c, Prompt = prompt_template @ sanitizeInput question, Stream = True,
                    Options = \<lparr>NumPredict = maxTokens c\<rparr>\<rparr> = Inr jsonData \<Longrightarrow>
   http_NewRequest w ''POST'' (url c) = Some err \<Longrightarrow>
   GenerateAnswer w c question = (([], Some (Wrapped ''failed to create request'' err)), [])"
  unfolding GenerateAnswer_def Let_def by simp

lemma GenerateAnswer_calls:
  "\<not> 1000 < length question \<Longrightarrow>
   json_Marshal w \<lparr>Model = model c, Prompt = prompt_template @ sanitizeInput question, Stream = True,
                    Options = \<lparr>NumPredict = maxTokens c\<rparr>\<rparr> = Inr jsonData \<Longrightarrow>
   http_NewRequest w ''POST'' (url c) = None \<Longrightarrow>
   snd (GenerateAnswer w c question) =
     [\<lparr>Method = ''POST'', URL = url c, ContentType = ''application/json'', Payload = jsonData\<rparr>]"
  unfolding GenerateAnswer_def Let_def by (simp split: sum.splits prod.splits)

lemma GenerateAnswer_error:
  assumes "snd (fst (GenerateAnswer w c question)) = Some e"
  shows "(1000 < length question \<and> e = ErrorString ''question too long'')
       \<or> (\<not> 1000 < length question \<and> (\<exists>err. e = Wrapped ''failed to marshal request'' err
             \<or> e = Wrapped ''failed to create request'' err))"
proof (cases "1000 < length question")
  case True
  with assms show ?thesis by (simp add: GenerateAnswer_long)
next
  case False
  let ?payload = "\<lparr>Model = model c, Prompt = prompt_template @ sanitizeInput question, Stream = True,
                    Options = \<lparr>NumPredict = maxTokens c\<rparr>\<rparr>"
  show ?thesis
  proof (cases "json_Marshal w ?payload")
    case (Inl err)
    from GenerateAnswer_marshal_fails [OF False Inl] assms False show ?thesis by auto
  next
    case (Inr jsonData)
    show ?thesis
    proof (cases "http_NewRequest w ''POST'' (url c)")
      case (Some err)
      from GenerateAnswer_request_fails [OF False Inr Some] assms False show ?thesis by auto
    next
      case None
      from GenerateAnswer_sent [OF GenerateAnswer_calls [OF False Inr None] ] assms
      show ?thesis by (simp split: if_splits)
    qed
  qed
qed

text \<open>When the inference call is made.\<close>

lemma GenerateAnswer_call_made:
  "(\<exists>req. snd (GenerateAnswer w c question) = [req]) \<longleftrightarrow>
     length question \<le> 1000
   \<and> (\<exists>jsonData. json_Marshal w \<lparr>Model = model c, Prompt = prompt_template @ sanitizeInput question,
          Stream = True, Options = \<lparr>NumPredict = maxTokens c\<rparr>\<rparr> = Inr jsonData)
   \<and> http_NewRequest w ''POST'' (url c) = None"
proof (cases "1000 < length question")
  case True
  then show ?thesis by (simp add: GenerateAnswer_long)
next
  case False
  let ?payload = "\<lparr>Model = model c, Prompt = prompt_template @ sanitizeInput question, Stream = True,
                    Options = \<lparr>NumPredict = maxTokens c\<rparr>\<rparr>"
  show ?thesis
  proof (cases "json_Marshal w ?payload")
    case (Inl err)
    with False show ?thesis by (simp add: GenerateAnswer_marshal_fails)
  next
    case (Inr jsonData)
    show ?thesis
    proof (cases "http_NewRequest w ''POST'' (url c)")
      case (Some err)
      with False Inr show ?thesis by (simp add: GenerateAnswer_request_fails)
    next
      case None
      with False Inr GenerateAnswer_calls [OF False Inr None] show ?thesis by simp
    qed
  qed
qed

text \<open>
  Claim C1. Whenever \<^verbatim>\<open>GenerateAnswer\<close> has made the inference call (for every question,
  client and world) and the call failed upstream, by a connection failure, a status
  other than 200, a scanner error other than a clean end of stream, or an aggregated
  result that is empty after trimming, it returns the fixed fallback string with a
  nil error.
\<close>

theorem upstream_failure_gives_fallback:
  assumes "snd (GenerateAnswer w c question) = [req]"
      and "upstream_failure w (client_Do w req)"
  shows "fst (GenerateAnswer w c question) =
           (''The spirits cannot answer at this time. Try again later.'', None)"
  using GenerateAnswer_sent [OF assms(1)] assms(2) by (simp add: fallback_def)

text \<open>An upstream that answers 503: the call is made and the fallback comes back.\<close>

theorem upstream_failure_gives_fallback_witness:
  "length (snd (GenerateAnswer (sample_world (Inr \<lparr>StatusCode = 503, Scanned = [], ScanErr = None\<rparr>))
       sample_client ''Is anyone there?'')) = 1
   \<and> upstream_failure (sample_world (Inr \<lparr>StatusCode = 503, Scanned = [], ScanErr = None\<rparr>))
       (client_Do (sample_world (Inr \<lparr>StatusCode = 503, Scanned = [], ScanErr = None\<rparr>))
          (hd (snd (GenerateAnswer (sample_world (Inr \<lparr>StatusCode = 503, Scanned = [], ScanErr = None\<rparr>))
             sample_client ''Is anyone there?''))))
   \<and> GenerateAnswer (sample_world (Inr \<lparr>StatusCode = 503, Scanned = [], ScanErr = None\<rparr>))
       sample_client ''Is anyone there?''
       = ((''The spirits cannot answer at this time. Try again later.'', None),
          snd (GenerateAnswer (sample_world (Inr \<lparr>StatusCode = 503, Scanned = [], ScanErr = None\<rparr>))
       sample_client ''Is anyone there?''))"
proof -
  let ?w = "sample_world (Inr \<lparr>StatusCode = 503, Scanned = [], ScanErr = None\<rparr>)"
  let ?G = "GenerateAnswer ?w sample_client ''Is anyone there?''"
  have "\<exists>d. snd ?G = [\<lparr>Method = ''POST'', URL = url sample_client,
      ContentType = ''application/json'', Payload = d\<rparr>]"
    by (rule exI, rule GenerateAnswer_calls) (simp_all add: sample_world_def)
  then obtain req where sent: "snd ?G = [req]" by blast
  have fail: "upstream_failure ?w (client_Do ?w req)"
    by (simp add: sample_world_def upstream_failure_def)
  from upstream_failure_gives_fallback [OF sent fail] sent fail
  show ?thesis by (simp add: prod_eq_iff)
qed

text \<open>
  Claim C5, amended. When the inference call was made and no fallback condition holds,
  \<^verbatim>\<open>GenerateAnswer\<close> returns, with a nil error, the concatenation in arrival order of
  the text pieces of the non-empty lines that parse, up to and including the first
  one whose completion flag is set, with leading and trailing white space trimmed.
  Lines that do not parse are skipped.
\<close>

theorem aggregates_trimmed_concatenation:
  assumes "snd (GenerateAnswer w c question) = [req]"
      and "client_Do w req = Inr resp"
      and "\<not> upstream_failure w (Inr resp)"
  shows "fst (GenerateAnswer w c question) = (TrimSpace (aggregated w resp), None)"
  using GenerateAnswer_sent [OF assms(1)] assms(2,3) by simp


lemma sample_Unmarshal_piece:
  \<open>sample_Unmarshal ''{"response":" Yes","done":false}'' = Some \<lparr>Response = '' Yes'', Done = False\<rparr>\<close>
  by (simp add: sample_Unmarshal_def)

lemma sample_Unmarshal_malformed: \<open>sample_Unmarshal ''{"response": Ye'' = None\<close>
  by (simp add: sample_Unmarshal_def)

lemma sample_Unmarshal_done:
  \<open>sample_Unmarshal ''{"response":".","done":true}'' = Some \<lparr>Response = ''.'', Done = True\<rparr>\<close>
  by (simp add: sample_Unmarshal_def)

lemmas sample_Unmarshal_eval =
  sample_Unmarshal_piece sample_Unmarshal_malformed sample_Unmarshal_done

lemma sample_stream_fragments:
  "parsed_fragments sample_Unmarshal (Scanned sample_stream) =
     [\<lparr>Response = '' Yes'', Done = False\<rparr>, \<lparr>Response = ''.'', Done = True\<rparr>,
      \<lparr>Response = '' Yes'', Done = False\<rparr>]"
  by (simp add: parsed_fragments_def sample_stream_def sample_Unmarshal_eval)

lemma sample_stream_aggregated: "aggregated (sample_world res) sample_stream = '' Yes.''"
  by (simp add: aggregated_def sample_stream_fragments sample_world_def upto_done_def)

lemma sample_stream_exit:
  "exit_err sample_Unmarshal (Scanned sample_stream) (ScanErr sample_stream) = None"
  by (simp add: sample_stream_def sample_Unmarshal_eval)

lemma TrimSpace_Yes: "TrimSpace '' Yes.'' = ''Yes.''"
  by (simp add: TrimSpace_eval)

lemma sample_stream_ok: "\<not> upstream_failure (sample_world res) (Inr sample_stream)"
proof -
  have "StatusCode sample_stream = 200" by (simp add: sample_stream_def)
  moreover have "json_Unmarshal (sample_world res) = sample_Unmarshal"
    by (simp add: sample_world_def)
  ultimately show ?thesis
    by (simp add: upstream_failure_def sample_stream_aggregated sample_stream_exit TrimSpace_Yes)
qed

lemma sample_call:
  "\<exists>d. snd (GenerateAnswer (sample_world res) sample_client ''Is anyone there?'') =
     [\<lparr>Method = ''POST'', URL = url sample_client, ContentType = ''application/json'', Payload = d\<rparr>]"
  by (rule exI, rule GenerateAnswer_calls) (simp_all add: sample_world_def)

text \<open>
  On the sample stream the malformed line, the empty line and the line after the
  completed fragment contribute nothing, and the result is trimmed.
\<close>

theorem aggregates_trimmed_concatenation_witness:
  "length (snd (GenerateAnswer (sample_world (Inr sample_stream)) sample_client ''Is anyone there?'')) = 1
   \<and> client_Do (sample_world (Inr sample_stream))
        (hd (snd (GenerateAnswer (sample_world (Inr sample_stream)) sample_client ''Is anyone there?'')))
       = Inr sample_stream
   \<and> \<not> upstream_failure (sample_world (Inr sample_stream)) (Inr sample_stream)
   \<and> fst (GenerateAnswer (sample_world (Inr sample_stream)) sample_client ''Is anyone there?'')
       = (''Yes.'', None)"
proof -
  let ?w = "sample_world (Inr sample_stream)"
  obtain req where sent: "snd (GenerateAnswer ?w sample_client ''Is anyone there?'') = [req]"
    using sample_call by blast
  have do: "client_Do ?w req = Inr sample_stream" by (simp add: sample_world_def)
  from aggregates_trimmed_concatenation [OF sent do sample_stream_ok] sent do sample_stream_ok
  show ?thesis by (simp add: sample_stream_aggregated TrimSpace_Yes)
qed

text \<open>
  The concatenation of the sample stream's pieces starts with a space; what
  \<^verbatim>\<open>GenerateAnswer\<close> returns does not.
\<close>

theorem untrimmed_concatenation_counterexample:
  "\<not> upstream_failure (sample_world (Inr sample_stream)) (Inr sample_stream)
   \<and> aggregated (sample_world (Inr sample_stream)) sample_stream = '' Yes.''
   \<and> fst (GenerateAnswer (sample_world (Inr sample_stream)) sample_client ''Is anyone there?'')
       = (''Yes.'', None)
   \<and> fst (fst (GenerateAnswer (sample_world (Inr sample_stream)) sample_client ''Is anyone there?''))
       \<noteq> aggregated (sample_world (Inr sample_stream)) sample_stream"
proof -
  let ?w = "sample_world (Inr sample_stream)"
  obtain req where sent: "snd (GenerateAnswer ?w sample_client ''Is anyone there?'') = [req]"
    using sample_call by blast
  have do: "client_Do ?w req = Inr sample_stream" by (simp add: sample_world_def)
  from GenerateAnswer_sent [OF sent] do sample_stream_ok [of "Inr sample_stream"]
  have "fst (GenerateAnswer ?w sample_client ''Is anyone there?'') = (''Yes.'', None)"
    by (simp add: sample_stream_aggregated TrimSpace_Yes)
  then show ?thesis
    using sample_stream_ok [of "Inr sample_stream"] by (simp add: sample_stream_aggregated)
qed

text \<open>The other kinds of upstream failure, each on a sample upstream.\<close>

lemma connection_failure_example:
  "fst (GenerateAnswer (sample_world (Inl (ErrorString ''connection refused''))) sample_client
     ''Is anyone there?'') = (fallback, None)"
proof -
  let ?w = "sample_world (Inl (ErrorString ''connection refused''))"
  obtain req where sent: "snd (GenerateAnswer ?w sample_client ''Is anyone there?'') = [req]"
    using sample_call by blast
  have "client_Do ?w req = Inl (ErrorString ''connection refused'')" by (simp add: sample_world_def)
  with GenerateAnswer_sent [OF sent] show ?thesis by (simp add: upstream_failure_def)
qed

lemma scanner_error_example:
  \<open>fst (GenerateAnswer
     (sample_world (Inr \<lparr>StatusCode = 200, Scanned = [(''{"response":" Yes","done":false}'', None)],
        ScanErr = Some (ErrorString ''unexpected EOF'')\<rparr>))
     sample_client ''Is anyone there?'') = (fallback, None)\<close>
proof -
  let ?resp = \<open>\<lparr>StatusCode = 200, Scanned = [(''{"response":" Yes","done":false}'', None)],
        ScanErr = Some (ErrorString ''unexpected EOF'')\<rparr>\<close>
  let ?w = "sample_world (Inr ?resp)"
  obtain req where sent: "snd (GenerateAnswer ?w sample_client ''Is anyone there?'') = [req]"
    using sample_call by blast
  have "client_Do ?w req = Inr ?resp" and "json_Unmarshal ?w = sample_Unmarshal"
    by (simp_all add: sample_world_def)
  with GenerateAnswer_sent [OF sent] show ?thesis
    by (simp add: upstream_failure_def sample_Unmarshal_eval)
qed

lemma blank_answer_example:
  \<open>fst (GenerateAnswer
     (sample_world (Inr \<lparr>StatusCode = 200, Scanned = [(''{"response":" ","done":true}'', None)],
        ScanErr = None\<rparr>))
     sample_client ''Is anyone there?'') = (fallback, None)\<close>
proof -
  let ?resp = \<open>\<lparr>StatusCode = 200, Scanned = [(''{"response":" ","done":true}'', None)],
        ScanErr = None\<rparr>\<close>
  let ?w = "sample_world (Inr ?resp)"
  obtain req where sent: "snd (GenerateAnswer ?w sample_client ''Is anyone there?'') = [req]"
    using sample_call by blast
  have un: \<open>sample_Unmarshal ''{"response":" ","done":true}'' = Some \<lparr>Response = '' '', Done = True\<rparr>\<close>
    by (simp add: sample_Unmarshal_def)
  have agg: "aggregated ?w ?resp = '' ''"
    by (simp add: aggregated_def parsed_fragments_def sample_world_def un upto_done_def)
  have trim: "TrimSpace '' '' = []" by (simp add: TrimSpace_eval)
  have "client_Do ?w req = Inr ?resp" by (simp add: sample_world_def)
  with GenerateAnswer_sent [OF sent] show ?thesis
    by (simp add: upstream_failure_def agg trim)
qed

section \<open>Properties of the request handler\<close>

lemma askHandler_accepted:
  assumes "Contains (Header_Get (Header r) ''Content-Type'') ''application/json''"
      and "json_Decode w (Body r) = Some req"
      and "\<not> 1000 < length (AskQuestion req)"
      and "TrimSpace (AskQuestion req) \<noteq> []"
  shows "askHandler w app r =
     (case GenerateAnswer w (ollama app) (AskQuestion req) of
        ((answer, Some err), reqs) \<Rightarrow>
          \<lparr>response = Some (respondWithError ''Failed to generate answer'' 500),
           store = storage app, sent = reqs, logged = [Error_generating_answer err]\<rparr>
      | ((answer, None), reqs) \<Rightarrow>
          (case fst (Add (storage app) \<lparr>Question = AskQuestion req, Answer = answer\<rparr>) of
             Panics \<Rightarrow> \<lparr>response = None,
               store = snd (Add (storage app) \<lparr>Question = AskQuestion req, Answer = answer\<rparr>),
               sent = reqs, logged = []\<rparr>
           | Returns e \<Rightarrow> \<lparr>response = Some (respondWithJSON (AskResponse answer) 200),
               store = snd (Add (storage app) \<lparr>Question = AskQuestion req, Answer = answer\<rparr>),
               sent = reqs, logged = []\<rparr>))"
proof -
  obtain answer err reqs where g: "GenerateAnswer w (ollama app) (AskQuestion req) = ((answer, err), reqs)"
    by (metis prod.exhaust)
  show ?thesis
  proof (cases err)
    case (Some e)
    with assms g show ?thesis unfolding askHandler_def by simp
  next
    case None
    obtain res st where a: "Add (storage app) \<lparr>Question = AskQuestion req, Answer = answer\<rparr> = (res, st)"
      by (metis prod.exhaust)
    from Add_outcome [of "storage app" "\<lparr>Question = AskQuestion req, Answer = answer\<rparr>"] a
    have "res = Returns None \<or> res = Panics" by simp
    with assms g None a show ?thesis unfolding askHandler_def Let_def by auto
  qed
qed

lemma askHandler_rejections:
  "\<not> Contains (Header_Get (Header r) ''Content-Type'') ''application/json'' \<Longrightarrow>
     askHandler w app r = rejected app (respondWithError ''Content-Type must be application/json'' 400)"
  "Contains (Header_Get (Header r) ''Content-Type'') ''application/json'' \<Longrightarrow>
   json_Decode w (Body r) = None \<Longrightarrow>
     askHandler w app r = rejected app (respondWithError ''Invalid request format'' 400)"
  "Contains (Header_Get (Header r) ''Content-Type'') ''application/json'' \<Longrightarrow>
   json_Decode w (Body r) = Some req \<Longrightarrow> 1000 < length (AskQuestion req) \<Longrightarrow>
     askHandler w app r = rejected app (respondWithError ''Question too long (max 1000 characters)'' 400)"
  "Contains (Header_Get (Header r) ''Content-Type'') ''application/json'' \<Longrightarrow>
   json_Decode w (Body r) = Some req \<Longrightarrow> \<not> 1000 < length (AskQuestion req) \<Longrightarrow>
   TrimSpace (AskQuestion req) = [] \<Longrightarrow>
     askHandler w app r = rejected app (respondWithError ''Question cannot be empty'' 400)"
  unfolding askHandler_def by simp_all

lemma askHandler_accepted_status:
  assumes "Contains (Header_Get (Header r) ''Content-Type'') ''application/json''"
      and "json_Decode w (Body r) = Some req"
      and "\<not> 1000 < length (AskQuestion req)"
      and "TrimSpace (AskQuestion req) \<noteq> []"
  shows "sent (askHandler w app r) = snd (GenerateAnswer w (ollama app) (AskQuestion req))"
    and "response (askHandler w app r) = Some rep \<Longrightarrow> status rep = 200 \<or> status rep = 500"
  unfolding askHandler_accepted [OF assms]
  by (auto simp: respondWithError_def respondWithJSON_def split: prod.splits option.splits outcome.splits)

lemma askHandler_400:
  assumes "response (askHandler w app r) = Some rep" and "status rep = 400"
  shows "store (askHandler w app r) = storage app \<and> sent (askHandler w app r) = []"
proof (cases "Contains (Header_Get (Header r) ''Content-Type'') ''application/json''")
  case False
  then show ?thesis by (simp add: askHandler_rejections rejected_def)
next
  case ct: True
  show ?thesis
  proof (cases "json_Decode w (Body r)")
    case None
    with ct show ?thesis by (simp add: askHandler_rejections rejected_def)
  next
    case (Some req)
    show ?thesis
    proof (cases "1000 < length (AskQuestion req)")
      case True
      with ct Some show ?thesis by (simp add: askHandler_rejections rejected_def)
    next
      case short: False
      show ?thesis
      proof (cases "TrimSpace (AskQuestion req) = []")
        case True
        with ct Some short show ?thesis by (simp add: askHandler_rejections rejected_def)
      next
        case False
        from askHandler_accepted_status(2) [OF ct Some short False assms(1)] assms(2)
        show ?thesis by simp
      qed
    qed
  qed
qed


lemma strip_trailing_spaces:
  "strip_runes (map rev space_runes) (replicate n (CHR '' '') @ ''a'') = ''a''"
proof (induction n)
  case 0
  show ?case by (simp add: space_runes_def strip_runes_stop)
next
  case (Suc n)
  have "rune_width (map rev space_runes) (CHR '' '' # replicate n (CHR '' '') @ ''a'') = Suc 0"
    by (simp add: space_runes_def)
  from strip_runes_step [OF this] Suc show ?case by simp
qed

lemma TrimSpace_long_question: "TrimSpace long_question = ''a''"
proof -
  have "rune_width space_runes long_question = 0"
    by (simp add: space_runes_def long_question_def)
  then have "strip_runes space_runes long_question = long_question"
    by (rule strip_runes_stop)
  moreover have "rev long_question = replicate 1000 (CHR '' '') @ ''a''"
    by (simp add: long_question_def)
  ultimately show ?thesis
    by (simp add: TrimSpace_def strip_trailing_spaces)
qed

lemma length_long_question: "length long_question = 1001"
  by (simp add: long_question_def)

lemma sample_Decode_long:
  \<open>sample_Decode long_body = Some \<lparr>AskQuestion = long_question\<rparr>\<close>
proof -
  have \<open>length long_body = 1016\<close>
    by (simp add: long_body_def length_long_question)
  then have ne: "long_body \<noteq> xs" if "length xs \<noteq> 1016" for xs
    using that by blast
  have \<open>long_body \<noteq> ''{"question":""}''\<close>
    and \<open>long_body \<noteq> ''{"question":"Is anyone there?"}''\<close>
    by (rule ne, simp)+
  then show ?thesis unfolding sample_Decode_def by simp
qed

lemma sample_Decode_empty: \<open>sample_Decode ''{"question":""}'' = Some \<lparr>AskQuestion = []\<rparr>\<close>
  by (simp add: sample_Decode_def)

lemma sample_Decode_question:
  \<open>sample_Decode ''{"question":"Is anyone there?"}'' = Some \<lparr>AskQuestion = ''Is anyone there?''\<rparr>\<close>
  by (simp add: sample_Decode_def)

lemma sample_request_json:
  "Contains (Header_Get (Header (sample_request body)) ''Content-Type'') ''application/json''"
  by (simp add: sample_request_def Header_Get_def)

lemma TrimSpace_empty: "TrimSpace [] = []"
  by (simp add: TrimSpace_eval)

lemma TrimSpace_question: "TrimSpace ''Is anyone there?'' = ''Is anyone there?''"
  by (simp add: TrimSpace_eval)

text \<open>
  Claim C3, amended. For a request with a JSON content type whose body decodes to a
  question: if the question as sent is longer than 1000 bytes, the reply is 400 with
  \<open>Question too long (max 1000 characters)\<close>, whatever its trimmed length;
  otherwise, if it is empty after trimming, the reply is 400 with
  \<open>Question cannot be empty\<close>; otherwise its trimmed length is in (0, 1000] and it
  is accepted: the handler passes it to \<^verbatim>\<open>GenerateAnswer\<close> and replies 200 or 500.
\<close>

theorem validation_by_raw_length:
  assumes "Contains (Header_Get (Header r) ''Content-Type'') ''application/json''"
      and "json_Decode w (Body r) = Some req"
  shows "(1000 < length (AskQuestion req) \<longrightarrow>
            askHandler w app r =
              \<lparr>response = Some \<lparr>status = 400,
                                 content = ErrorResponse ''Question too long (max 1000 characters)''\<rparr>,
               store = storage app, sent = [], logged = []\<rparr>)
       \<and> (length (AskQuestion req) \<le> 1000 \<and> length (TrimSpace (AskQuestion req)) = 0 \<longrightarrow>
            askHandler w app r =
              \<lparr>response = Some \<lparr>status = 400, content = ErrorResponse ''Question cannot be empty''\<rparr>,
               store = storage app, sent = [], logged = []\<rparr>)
       \<and> (length (AskQuestion req) \<le> 1000 \<and> 0 < length (TrimSpace (AskQuestion req)) \<longrightarrow>
            length (TrimSpace (AskQuestion req)) \<le> 1000
          \<and> sent (askHandler w app r) = snd (GenerateAnswer w (ollama app) (AskQuestion req))
          \<and> (\<forall>rep. response (askHandler w app r) = Some rep \<longrightarrow> status rep = 200 \<or> status rep = 500))"
proof (intro conjI impI)
  assume "1000 < length (AskQuestion req)"
  from askHandler_rejections(3) [OF assms this]
  show "askHandler w app r =
      \<lparr>response = Some \<lparr>status = 400,
                         content = ErrorResponse ''Question too long (max 1000 characters)''\<rparr>,
       store = storage app, sent = [], logged = []\<rparr>"
    by (simp add: rejected_def respondWithError_def respondWithJSON_def)
next
  assume "length (AskQuestion req) \<le> 1000 \<and> length (TrimSpace (AskQuestion req)) = 0"
  then have "\<not> 1000 < length (AskQuestion req)" and "TrimSpace (AskQuestion req) = []" by simp_all
  from askHandler_rejections(4) [OF assms this]
  show "askHandler w app r =
      \<lparr>response = Some \<lparr>status = 400, content = ErrorResponse ''Question cannot be empty''\<rparr>,
       store = storage app, sent = [], logged = []\<rparr>"
    by (simp add: rejected_def respondWithError_def respondWithJSON_def)
next
  assume a: "length (AskQuestion req) \<le> 1000 \<and> 0 < length (TrimSpace (AskQuestion req))"
  then have short: "\<not> 1000 < length (AskQuestion req)" and ne: "TrimSpace (AskQuestion req) \<noteq> []"
    by auto
  show "length (TrimSpace (AskQuestion req)) \<le> 1000"
    using a TrimSpace_length [of "AskQuestion req"] by simp
  show "sent (askHandler w app r) = snd (GenerateAnswer w (ollama app) (AskQuestion req))"
    by (rule askHandler_accepted_status(1) [OF assms short ne])
  show "\<forall>rep. response (askHandler w app r) = Some rep \<longrightarrow> status rep = 200 \<or> status rep = 500"
    using askHandler_accepted_status(2) [OF assms short ne] by blast
qed

text \<open>One request for each of the three cases.\<close>

theorem validation_by_raw_length_witness:
  \<open>Contains (Header_Get (Header (sample_request long_body)) ''Content-Type'')
      ''application/json''
   \<and> json_Decode (sample_world (Inr sample_stream)) (Body (sample_request long_body))
       = Some \<lparr>AskQuestion = long_question\<rparr>
   \<and> 1000 < length long_question
   \<and> response (askHandler (sample_world (Inr sample_stream)) sample_app
        (sample_request long_body))
       = Some \<lparr>status = 400, content = ErrorResponse ''Question too long (max 1000 characters)''\<rparr>
   \<and> json_Decode (sample_world (Inr sample_stream)) (Body (sample_request ''{"question":""}''))
       = Some \<lparr>AskQuestion = []\<rparr>
   \<and> length (TrimSpace []) = 0
   \<and> response (askHandler (sample_world (Inr sample_stream)) sample_app (sample_request ''{"question":""}''))
       = Some \<lparr>status = 400, content = ErrorResponse ''Question cannot be empty''\<rparr>
   \<and> json_Decode (sample_world (Inr sample_stream)) (Body (sample_request ''{"question":"Is anyone there?"}''))
       = Some \<lparr>AskQuestion = ''Is anyone there?''\<rparr>
   \<and> 0 < length (TrimSpace ''Is anyone there?'')
   \<and> sent (askHandler (sample_world (Inr sample_stream)) sample_app
        (sample_request ''{"question":"Is anyone there?"}''))
       = snd (GenerateAnswer (sample_world (Inr sample_stream)) (ollama sample_app) ''Is anyone there?'')\<close>
proof -
  let ?w = "sample_world (Inr sample_stream)"
  have d1: \<open>json_Decode ?w (Body (sample_request long_body))
      = Some \<lparr>AskQuestion = long_question\<rparr>\<close>
    by (simp add: sample_world_def sample_request_def sample_Decode_long)
  have d2: \<open>json_Decode ?w (Body (sample_request ''{"question":""}'')) = Some \<lparr>AskQuestion = []\<rparr>\<close>
    by (simp add: sample_world_def sample_request_def sample_Decode_empty)
  have d3: \<open>json_Decode ?w (Body (sample_request ''{"question":"Is anyone there?"}''))
      = Some \<lparr>AskQuestion = ''Is anyone there?''\<rparr>\<close>
    by (simp add: sample_world_def sample_request_def sample_Decode_question)
  from validation_by_raw_length [OF sample_request_json d1, of sample_app]
       validation_by_raw_length [OF sample_request_json d2, of sample_app]
       validation_by_raw_length [OF sample_request_json d3, of sample_app]
       d1 d2 d3 sample_request_json
  show ?thesis
    by (simp add: length_long_question TrimSpace_empty TrimSpace_question)
qed

text \<open>
  The letter \<open>a\<close> followed by 1000 spaces has trimmed length 1, and is rejected as too
  long.
\<close>

theorem trimmed_length_counterexample:
  \<open>0 < length (TrimSpace long_question) \<and> length (TrimSpace long_question) \<le> 1000
   \<and> response (askHandler (sample_world (Inr sample_stream)) sample_app
        (sample_request long_body))
       = Some \<lparr>status = 400, content = ErrorResponse ''Question too long (max 1000 characters)''\<rparr>\<close>
proof -
  let ?w = "sample_world (Inr sample_stream)"
  have d1: \<open>json_Decode ?w (Body (sample_request long_body))
      = Some \<lparr>AskQuestion = long_question\<rparr>\<close>
    by (simp add: sample_world_def sample_request_def sample_Decode_long)
  have "1000 < length (AskQuestion \<lparr>AskQuestion = long_question\<rparr>)"
    by (simp add: length_long_question)
  from askHandler_rejections(3) [OF sample_request_json d1 this, of sample_app]
  show ?thesis
    by (simp add: TrimSpace_long_question rejected_def respondWithError_def respondWithJSON_def)
qed

lemma serve_ask_eq:
  "snd (serve_ask w limiter app now r) = rejected app (respondWithError ''Rate limit exceeded'' 429)
   \<or> snd (serve_ask w limiter app now r) = askHandler w app r"
  by (auto simp: serve_ask_def rateLimitMiddleware_def Let_def split: prod.splits)

lemma askHandler_not_429: "response (askHandler w app r) = Some rep \<Longrightarrow> status rep \<noteq> 429"
  unfolding askHandler_def Let_def
  by (auto simp: rejected_def respondWithError_def respondWithJSON_def
      split: if_splits option.splits prod.splits outcome.splits)


lemma fresh_allow:
  "limiters rl ip = None \<Longrightarrow>
   allow rl ip now =
     (1 \<le> int64 (rate rl * 2),
      rl\<lparr>limiters := (limiters rl)(ip \<mapsto>
         \<lparr>capacity = int64 (rate rl * 2), refillRate = rate rl,
          availableTokens = (if 1 \<le> int64 (rate rl * 2) then of_int (int64 (rate rl * 2)) - 1
                             else of_int (int64 (rate rl * 2))),
          lastRefill = Some now\<rparr>)\<rparr>)"
  by (simp add: allow_def getLimiter_def Allow_def refilled_def rate_NewLimiter_def Let_def)

lemma int64_20: "int64 20 = 20"
  by (simp add: int64_def)

lemma sample_admitted:
  "serve_ask w (newRateLimiter 10) app now (sample_request body) =
     (snd (allow (newRateLimiter 10) ''192.0.2.7:51234'' now), askHandler w app (sample_request body))"
proof -
  have "limiters (newRateLimiter 10) ''192.0.2.7:51234'' = None"
    by (simp add: newRateLimiter_def)
  from fresh_allow [OF this]
  have "fst (allow (newRateLimiter 10) ''192.0.2.7:51234'' now)"
    by (simp add: newRateLimiter_def int64_20)
  then show ?thesis
    by (auto simp: serve_ask_def rateLimitMiddleware_def sample_request_def Header_Get_def
        split: prod.splits)
qed

text \<open>
  Claim C6. A request that is answered with 400 (rejected by validation) or with 429
  (rejected by admission control) leaves the history store as it was and sends no
  inference request. In particular a request with a JSON content type whose body
  decodes to the empty question is answered by the handler with 400 and the error
  \<open>Question cannot be empty\<close>, nothing else is done, and the store is unchanged
  whether or not the admission controller let the request through.
\<close>

theorem rejection_has_no_side_effects:
  "(response (snd (serve_ask w limiter app now r)) = Some rep \<and> (status rep = 400 \<or> status rep = 429)
      \<longrightarrow> store (snd (serve_ask w limiter app now r)) = storage app
        \<and> sent (snd (serve_ask w limiter app now r)) = [])
   \<and> (Contains (Header_Get (Header r) ''Content-Type'') ''application/json''
        \<and> json_Decode w (Body r) = Some \<lparr>AskQuestion = []\<rparr>
      \<longrightarrow> askHandler w app r =
            \<lparr>response = Some \<lparr>status = 400, content = ErrorResponse ''Question cannot be empty''\<rparr>,
             store = storage app, sent = [], logged = []\<rparr>
        \<and> store (snd (serve_ask w limiter app now r)) = storage app)"
proof -
  have no_effect: "store (snd (serve_ask w limiter app now r)) = storage app
      \<and> sent (snd (serve_ask w limiter app now r)) = []"
    if a: "response (snd (serve_ask w limiter app now r)) = Some rep
      \<and> (status rep = 400 \<or> status rep = 429)"
    using serve_ask_eq [of w limiter app now r]
  proof
    assume "snd (serve_ask w limiter app now r)
        = rejected app (respondWithError ''Rate limit exceeded'' 429)"
    then show ?thesis by (simp add: rejected_def)
  next
    assume h: "snd (serve_ask w limiter app now r) = askHandler w app r"
    with a askHandler_not_429 [of w app r rep] have "status rep = 400" by auto
    with a h askHandler_400 [of w app r rep] show ?thesis by simp
  qed
  have empty: "askHandler w app r =
      \<lparr>response = Some \<lparr>status = 400, content = ErrorResponse ''Question cannot be empty''\<rparr>,
       store = storage app, sent = [], logged = []\<rparr>
      \<and> store (snd (serve_ask w limiter app now r)) = storage app"
    if b: "Contains (Header_Get (Header r) ''Content-Type'') ''application/json''
      \<and> json_Decode w (Body r) = Some \<lparr>AskQuestion = []\<rparr>"
  proof -
    from b have "askHandler w app r = rejected app (respondWithError ''Question cannot be empty'' 400)"
      by (intro askHandler_rejections(4) [where req = "\<lparr>AskQuestion = []\<rparr>"])
         (simp_all add: TrimSpace_empty)
    then have h: "askHandler w app r =
        \<lparr>response = Some \<lparr>status = 400, content = ErrorResponse ''Question cannot be empty''\<rparr>,
         store = storage app, sent = [], logged = []\<rparr>"
      by (simp add: rejected_def respondWithError_def respondWithJSON_def)
    from serve_ask_eq [of w limiter app now r] h
    have "store (snd (serve_ask w limiter app now r)) = storage app"
      by (auto simp: rejected_def)
    with h show ?thesis by simp
  qed
  from no_effect empty show ?thesis by blast
qed

text \<open>The request \<^verbatim>\<open>POST /ask {"question":""}\<close> from a client seen for the first time.\<close>

theorem rejection_has_no_side_effects_witness:
  \<open>response (snd (serve_ask (sample_world (Inr sample_stream)) (newRateLimiter 10) sample_app 0
       (sample_request ''{"question":""}'')))
     = Some \<lparr>status = 400, content = ErrorResponse ''Question cannot be empty''\<rparr>
   \<and> Contains (Header_Get (Header (sample_request ''{"question":""}'')) ''Content-Type'') ''application/json''
   \<and> json_Decode (sample_world (Inr sample_stream)) (Body (sample_request ''{"question":""}''))
       = Some \<lparr>AskQuestion = []\<rparr>
   \<and> store (snd (serve_ask (sample_world (Inr sample_stream)) (newRateLimiter 10) sample_app 0
       (sample_request ''{"question":""}''))) = NewMemoryStorage 1000
   \<and> sent (snd (serve_ask (sample_world (Inr sample_stream)) (newRateLimiter 10) sample_app 0
       (sample_request ''{"question":""}''))) = []\<close>
proof -
  let ?w = "sample_world (Inr sample_stream)"
  let ?r = \<open>sample_request ''{"question":""}''\<close>
  let ?rep = "\<lparr>status = 400, content = ErrorResponse ''Question cannot be empty''\<rparr>"
  have d: "json_Decode ?w (Body ?r) = Some \<lparr>AskQuestion = []\<rparr>"
    by (simp add: sample_world_def sample_request_def sample_Decode_empty)
  from rejection_has_no_side_effects [of ?w "newRateLimiter 10" sample_app 0 ?r ?rep]
    d sample_request_json [of \<open>''{"question":""}''\<close>]
    sample_admitted [of ?w sample_app 0 \<open>''{"question":""}''\<close>]
  show ?thesis by (simp add: sample_app_def)
qed


lemma askHandler_generation_error:
  assumes "Error_generating_answer e \<in> set (logged (askHandler w app r))
        \<or> response (askHandler w app r) = Some (respondWithError ''Failed to generate answer'' 500)"
  shows "\<exists>req. json_Decode w (Body r) = Some req \<and> length (AskQuestion req) \<le> 1000
           \<and> (\<exists>e'. snd (fst (GenerateAnswer w (ollama app) (AskQuestion req))) = Some e'
                 \<and> (Error_generating_answer e \<in> set (logged (askHandler w app r)) \<longrightarrow> e' = e))"
proof (cases "Contains (Header_Get (Header r) ''Content-Type'') ''application/json''")
  case False
  with assms show ?thesis
    by (simp add: askHandler_rejections rejected_def respondWithError_def respondWithJSON_def)
next
  case ct: True
  show ?thesis
  proof (cases "json_Decode w (Body r)")
    case None
    with ct assms show ?thesis
      by (simp add: askHandler_rejections rejected_def respondWithError_def respondWithJSON_def)
  next
    case (Some req)
    show ?thesis
    proof (cases "1000 < length (AskQuestion req)")
      case True
      with ct Some assms show ?thesis
        by (simp add: askHandler_rejections rejected_def respondWithError_def respondWithJSON_def)
    next
      case short: False
      show ?thesis
      proof (cases "TrimSpace (AskQuestion req) = []")
        case True
        with ct Some short assms show ?thesis
          by (simp add: askHandler_rejections rejected_def respondWithError_def respondWithJSON_def)
      next
        case False
        from assms short Some show ?thesis
          unfolding askHandler_accepted [OF ct Some short False]
          by (auto simp: respondWithError_def respondWithJSON_def
              split: prod.splits option.splits outcome.splits)
      qed
    qed
  qed
qed

text \<open>
  Claim C9. \<^verbatim>\<open>GenerateAnswer\<close> returns the error \<open>question too long\<close> for no question
  of at most 1000 bytes; \<^verbatim>\<open>askHandler\<close> never receives (and never logs) that error; and
  whenever it answers 500 \<open>Failed to generate answer\<close>, the question it passed on
  had at most 1000 bytes and the error came from building the request.
\<close>

theorem too_long_branch_unreachable:
  "(length question \<le> 1000 \<longrightarrow>
      snd (fst (GenerateAnswer w c question)) \<noteq> Some (ErrorString ''question too long''))
   \<and> Error_generating_answer (ErrorString ''question too long'') \<notin> set (logged (askHandler w app r))
   \<and> (response (askHandler w app r) = Some (respondWithError ''Failed to generate answer'' 500) \<longrightarrow>
        (\<exists>req e. json_Decode w (Body r) = Some req \<and> length (AskQuestion req) \<le> 1000
           \<and> snd (fst (GenerateAnswer w (ollama app) (AskQuestion req))) = Some e
           \<and> e \<noteq> ErrorString ''question too long''))"
proof -
  have gen: "snd (fst (GenerateAnswer w c q)) \<noteq> Some (ErrorString ''question too long'')"
    if "length q \<le> 1000" for w c q
    using GenerateAnswer_error [of w c q "ErrorString ''question too long''"] that by auto
  have log: "Error_generating_answer (ErrorString ''question too long'') \<notin> set (logged (askHandler w app r))"
  proof
    assume mem: "Error_generating_answer (ErrorString ''question too long'') \<in> set (logged (askHandler w app r))"
    from askHandler_generation_error [OF disjI1, OF mem] mem gen show False by auto
  qed
  have resp: "\<exists>req e. json_Decode w (Body r) = Some req \<and> length (AskQuestion req) \<le> 1000
           \<and> snd (fst (GenerateAnswer w (ollama app) (AskQuestion req))) = Some e
           \<and> e \<noteq> ErrorString ''question too long''"
    if "response (askHandler w app r) = Some (respondWithError ''Failed to generate answer'' 500)"
    using askHandler_generation_error [OF disjI2, OF that] gen by metis
  from gen log resp show ?thesis by blast
qed

text \<open>A configured URL that cannot be parsed: the 500 reply comes from request construction.\<close>

theorem too_long_branch_unreachable_witness:
  \<open>length ''Is anyone there?'' \<le> 1000
   \<and> snd (fst (GenerateAnswer bad_url_world sample_client ''Is anyone there?''))
       = Some (Wrapped ''failed to create request'' (ErrorString ''invalid URL''))
   \<and> snd (fst (GenerateAnswer bad_url_world sample_client ''Is anyone there?''))
       \<noteq> Some (ErrorString ''question too long'')
   \<and> response (askHandler bad_url_world sample_app (sample_request ''{"question":"Is anyone there?"}''))
       = Some (respondWithError ''Failed to generate answer'' 500)
   \<and> logged (askHandler bad_url_world sample_app (sample_request ''{"question":"Is anyone there?"}''))
       = [Error_generating_answer (Wrapped ''failed to create request'' (ErrorString ''invalid URL''))]\<close>
proof -
  let ?r = \<open>sample_request ''{"question":"Is anyone there?"}''\<close>
  have g: "GenerateAnswer bad_url_world sample_client ''Is anyone there?''
      = (([], Some (Wrapped ''failed to create request'' (ErrorString ''invalid URL''))), [])"
    by (rule GenerateAnswer_request_fails) (simp_all add: bad_url_world_def sample_world_def)
  have d: "json_Decode bad_url_world (Body ?r) = Some \<lparr>AskQuestion = ''Is anyone there?''\<rparr>"
    by (simp add: bad_url_world_def sample_world_def sample_request_def sample_Decode_question)
  have h: "askHandler bad_url_world sample_app ?r =
      \<lparr>response = Some (respondWithError ''Failed to generate answer'' 500),
       store = storage sample_app, sent = [],
       logged = [Error_generating_answer (Wrapped ''failed to create request'' (ErrorString ''invalid URL''))]\<rparr>"
  proof -
    have short: "\<not> 1000 < length (AskQuestion \<lparr>AskQuestion = ''Is anyone there?''\<rparr>)"
      by simp
    have ne: "TrimSpace (AskQuestion \<lparr>AskQuestion = ''Is anyone there?''\<rparr>) \<noteq> []"
      by (simp add: TrimSpace_question)
    from askHandler_accepted [OF sample_request_json d short ne, of sample_app]
    show ?thesis by (simp add: sample_app_def g)
  qed
  from too_long_branch_unreachable [of "''Is anyone there?''" bad_url_world sample_client sample_app ?r] g h
  show ?thesis by simp
qed

section \<open>Properties of admission control\<close>

lemma middleware_identity:
  "(let ip = RemoteAddr r; forwarded = Header_Get (Header r) ''X-Forwarded-For''
    in if forwarded \<noteq> [] then forwarded else ip) = client_identity r"
  by (simp add: client_identity_def Header_Get_def Let_def split: list.split)

lemma allow_limiters:
  "ip \<in> dom (limiters (snd (allow rl ip now)))"
  "k \<noteq> ip \<Longrightarrow> limiters (snd (allow rl ip now)) k = limiters rl k"
  by (auto simp: allow_def getLimiter_def Let_def split: option.splits prod.splits)

text \<open>
  Claim C7. For every inbound request the middleware asks the limiter stored under the
  client identity, that is, under the forwarded-for header's value when the header is
  present and not empty and under the peer address otherwise: it behaves as \<open>allow\<close>
  at that key, that key is the one it fills, and no other key's state changes.
\<close>

theorem identity_keys_rate_limit:
  "rateLimitMiddleware limiter now next r =
     (snd (allow limiter (client_identity r) now),
      if fst (allow limiter (client_identity r) now) then Inr (next r)
      else Inl (respondWithError ''Rate limit exceeded'' 429))
   \<and> client_identity r \<in> dom (limiters (fst (rateLimitMiddleware limiter now next r)))
   \<and> (\<forall>ip. ip \<noteq> client_identity r \<longrightarrow>
         limiters (fst (rateLimitMiddleware limiter now next r)) ip = limiters limiter ip)"
proof -
  have eq: "rateLimitMiddleware limiter now next r =
     (snd (allow limiter (client_identity r) now),
      if fst (allow limiter (client_identity r) now) then Inr (next r)
      else Inl (respondWithError ''Rate limit exceeded'' 429))"
    unfolding rateLimitMiddleware_def
    using middleware_identity [of r]
    by (simp add: Let_def split: prod.splits)
  show ?thesis
    unfolding eq using allow_limiters [where ip = "client_identity r" and rl = limiter and now = now]
    by simp
qed

text \<open>A request with a forwarded-for header, and one without.\<close>

theorem identity_keys_rate_limit_witness:
  "client_identity forwarded_request = ''203.0.113.9''
   \<and> ''203.0.113.9'' \<in> dom (limiters (fst (rateLimitMiddleware (newRateLimiter 10) 0 id forwarded_request)))
   \<and> ''192.0.2.7:51234'' \<noteq> client_identity forwarded_request
   \<and> limiters (fst (rateLimitMiddleware (newRateLimiter 10) 0 id forwarded_request)) ''192.0.2.7:51234'' = None
   \<and> client_identity (sample_request []) = ''192.0.2.7:51234''
   \<and> ''192.0.2.7:51234'' \<in> dom (limiters (fst (rateLimitMiddleware (newRateLimiter 10) 0 id (sample_request []))))"
proof -
  have a: "client_identity forwarded_request = ''203.0.113.9''"
    by (simp add: client_identity_def forwarded_request_def)
  have b: "client_identity (sample_request []) = ''192.0.2.7:51234''"
    by (simp add: client_identity_def sample_request_def)
  have c: "limiters (newRateLimiter 10) ''192.0.2.7:51234'' = None"
    by (simp add: newRateLimiter_def)
  have d: "''192.0.2.7:51234'' \<noteq> ''203.0.113.9''" by simp
  note fwd = identity_keys_rate_limit [of "newRateLimiter 10" 0 id forwarded_request,
      unfolded a, THEN conjunct2]
  note peer = identity_keys_rate_limit [of "newRateLimiter 10" 0 id "sample_request []",
      unfolded b, THEN conjunct2]
  have e: "limiters (fst (rateLimitMiddleware (newRateLimiter 10) 0 id forwarded_request))
      ''192.0.2.7:51234'' = None"
    using fwd [THEN conjunct2, rule_format, OF d] c by (simp only:)
  show ?thesis
    unfolding a b
    by (intro conjI refl d e fwd [THEN conjunct1] peer [THEN conjunct1])
qed

lemma int64_id: "- (2 ^ 63) \<le> x \<Longrightarrow> x < 2 ^ 63 \<Longrightarrow> int64 x = x"
  by (simp add: int64_def)

lemma Allow_same_instant:
  assumes "availableTokens l = of_int T" and "T \<le> capacity l"
      and "lastRefill l = None \<or> lastRefill l = Some now"
  shows "Allow l now =
     (1 \<le> T, l\<lparr>availableTokens := of_int (if 1 \<le> T then T - 1 else T), lastRefill := Some now\<rparr>)"
proof -
  have "refilled l now = of_int T"
    using assms by (auto simp: refilled_def min_def)
  then show ?thesis by (simp add: Allow_def Let_def)
qed

lemma allow_known:
  "limiters rl ip = Some l \<Longrightarrow>
   allow rl ip now = (fst (Allow l now), rl\<lparr>limiters := (limiters rl)(ip \<mapsto> snd (Allow l now))\<rparr>)"
  by (simp add: allow_def getLimiter_def split: prod.splits)

lemma allow_fresh:
  "limiters rl ip = None \<Longrightarrow>
   allow rl ip now =
     allow (rl\<lparr>limiters := (limiters rl)(ip \<mapsto> rate_NewLimiter (rate rl) (int64 (rate rl * 2)))\<rparr>) ip now"
  by (simp add: allow_def getLimiter_def Let_def split: prod.splits)

lemma allow_burst_tokens:
  assumes "limiters rl ip = Some l" and "availableTokens l = of_int T" and "T \<le> capacity l"
      and "lastRefill l = None \<or> lastRefill l = Some now"
  shows "fst (allow_burst n rl ip now) = replicate (min n (nat T)) True @ replicate (n - nat T) False
       \<and> (0 < n \<longrightarrow> limiters (snd (allow_burst n rl ip now)) ip =
             Some (l\<lparr>availableTokens := of_int (T - int (min n (nat T))), lastRefill := Some now\<rparr>))"
  using assms
proof (induction n arbitrary: rl l T)
  case 0
  then show ?case by simp
next
  case (Suc n)
  let ?T' = "if 1 \<le> T then T - 1 else T"
  let ?l' = "l\<lparr>availableTokens := of_int ?T', lastRefill := Some now\<rparr>"
  let ?rl' = "rl\<lparr>limiters := (limiters rl)(ip \<mapsto> ?l')\<rparr>"
  have step: "allow rl ip now = (1 \<le> T, ?rl')"
    using allow_known [OF Suc.prems(1)] Allow_same_instant [OF Suc.prems(2,3,4)] by simp
  have IH: "fst (allow_burst n ?rl' ip now) = replicate (min n (nat ?T')) True @ replicate (n - nat ?T') False
       \<and> (0 < n \<longrightarrow> limiters (snd (allow_burst n ?rl' ip now)) ip =
             Some (?l'\<lparr>availableTokens := of_int (?T' - int (min n (nat ?T'))), lastRefill := Some now\<rparr>))"
    by (rule Suc.IH) (use Suc.prems in auto)
  show ?case
  proof (cases "1 \<le> T")
    case True
    then have nT: "nat T = Suc (nat (T - 1))" by simp
    have tok: "T - 1 - int (min n (nat (T - 1))) = T - int (min (Suc n) (nat T))"
      unfolding nT by simp
    from True IH step show ?thesis
      unfolding nT by (cases n) (simp_all add: tok [unfolded nT] split: prod.splits)
  next
    case False
    then have "nat T = 0" by simp
    with False IH step show ?thesis
      by (cases n) (simp_all split: prod.splits)
  qed
qed


lemma allow_burst_fresh:
  "limiters rl ip = None \<Longrightarrow>
   allow_burst n rl ip now =
     (if n = 0 then ([], rl)
      else allow_burst n
        (rl\<lparr>limiters := (limiters rl)(ip \<mapsto> rate_NewLimiter (rate rl) (int64 (rate rl * 2)))\<rparr>) ip now)"
  by (cases n) (simp_all add: allow_fresh)

lemma Allow_after_burst:
  assumes "now \<le> later"
  shows "fst (Allow \<lparr>capacity = 2 * r, refillRate = r, availableTokens = of_int (min 0 (2 * r)),
                    lastRefill = Some now\<rparr> later) = (1 \<le> of_int r * (later - now))"
proof -
  let ?l = "\<lparr>capacity = 2 * r, refillRate = r, availableTokens = of_int (min 0 (2 * r)),
            lastRefill = Some now\<rparr>"
  have allow: "fst (Allow ?l later) = (1 \<le> refilled ?l later)"
    by (simp add: Allow_def Let_def)
  have tokens: "refilled ?l later
      = min (of_int (2 * r)) (of_int (min 0 (2 * r)) + of_int r * (later - now))"
    using assms by (simp add: refilled_def max_def)
  show ?thesis
  proof (cases "1 \<le> r")
    case True
    then have "(1::rat) \<le> of_int (2 * r)" and "min 0 (2 * r) = 0"
      by simp_all
    then show ?thesis unfolding allow tokens by (simp only: min.bounded_iff) simp
  next
    case False
    then have r: "r \<le> 0" by simp
    then have "of_int r * (later - now) \<le> (0::rat)"
      using assms by (simp add: mult_le_0_iff)
    moreover have "of_int (2 * r) \<le> (0::rat)" using r by simp
    ultimately show ?thesis unfolding allow tokens by simp
  qed
qed

text \<open>
  Claim C4, amended. For a client identity without a limiter and a configured rate
  \<open>r\<close> with \<open>-2\<^sup>6\<^sup>2 \<le> r < 2\<^sup>6\<^sup>2\<close>, \<^verbatim>\<open>getLimiter\<close> creates and stores a bucket with
  capacity \<open>2 r\<close> and refill rate \<open>r\<close>; of \<open>n\<close> calls of \<^verbatim>\<open>Allow\<close> at one instant the
  first \<open>2 r\<close> succeed (none when \<open>r\<close> is negative) and all later ones fail; and once
  the burst is used up, a call at a later time succeeds exactly when at least one
  token has been refilled since.
\<close>

theorem fresh_identity_burst:
  assumes "limiters rl ip = None" and "- (2 ^ 62) \<le> rate rl" and "rate rl < 2 ^ 62"
  shows "fst (getLimiter rl ip) =
           \<lparr>capacity = 2 * rate rl, refillRate = rate rl, availableTokens = of_int (2 * rate rl),
            lastRefill = None\<rparr>
       \<and> limiters (snd (getLimiter rl ip)) ip = Some (fst (getLimiter rl ip))
       \<and> fst (allow_burst n rl ip now) =
           replicate (min n (nat (2 * rate rl))) True @ replicate (n - nat (2 * rate rl)) False
       \<and> (0 < n \<and> nat (2 * rate rl) \<le> n \<and> now \<le> later \<longrightarrow>
            fst (allow (snd (allow_burst n rl ip now)) ip later) = (1 \<le> of_int (rate rl) * (later - now)))"
proof -
  let ?B = "2 * rate rl"
  let ?l = "\<lparr>capacity = ?B, refillRate = rate rl, availableTokens = of_int ?B, lastRefill = None\<rparr>"
  let ?rl = "rl\<lparr>limiters := (limiters rl)(ip \<mapsto> ?l)\<rparr>"
  have wrap: "int64 (rate rl * 2) = ?B"
    using assms(2,3) by (simp add: int64_id)
  have new: "rate_NewLimiter (rate rl) (int64 (rate rl * 2)) = ?l"
    by (simp add: rate_NewLimiter_def wrap)
  have get: "getLimiter rl ip = (?l, ?rl)"
    using assms(1) by (simp add: getLimiter_def Let_def new)
  have burst: "fst (allow_burst n ?rl ip now) =
        replicate (min n (nat ?B)) True @ replicate (n - nat ?B) False
      \<and> (0 < n \<longrightarrow> limiters (snd (allow_burst n ?rl ip now)) ip =
            Some (?l\<lparr>availableTokens := of_int (?B - int (min n (nat ?B))), lastRefill := Some now\<rparr>))"
    by (rule allow_burst_tokens) simp_all
  have fresh: "allow_burst n rl ip now = (if n = 0 then ([], rl) else allow_burst n ?rl ip now)"
    using allow_burst_fresh [OF assms(1), of n now] by (simp add: new)
  have results: "fst (allow_burst n rl ip now) =
      replicate (min n (nat ?B)) True @ replicate (n - nat ?B) False"
    using burst fresh by (cases "n = 0") simp_all
  have refill: "fst (allow (snd (allow_burst n rl ip now)) ip later)
      = (1 \<le> of_int (rate rl) * (later - now))"
    if "0 < n \<and> nat ?B \<le> n \<and> now \<le> later"
  proof -
    from that have "min n (nat ?B) = nat ?B" by simp
    then have "?B - int (min n (nat ?B)) = min 0 ?B" by simp
    with burst fresh that
    have "limiters (snd (allow_burst n rl ip now)) ip =
        Some \<lparr>capacity = ?B, refillRate = rate rl, availableTokens = of_int (min 0 ?B),
              lastRefill = Some now\<rparr>"
      by simp
    from allow_known [OF this] Allow_after_burst [of now later "rate rl"] that
    show ?thesis by simp
  qed
  from get results refill show ?thesis by simp
qed


text \<open>
  The default rate of 10: twenty calls pass, the twenty-first fails, and a call a tenth
  of a second later passes.
\<close>

theorem fresh_identity_burst_witness:
  "limiters (newRateLimiter 10) ''192.0.2.7:51234'' = None
   \<and> - (2 ^ 62) \<le> rate (newRateLimiter 10) \<and> rate (newRateLimiter 10) < 2 ^ 62
   \<and> capacity (fst (getLimiter (newRateLimiter 10) ''192.0.2.7:51234'')) = 20
   \<and> refillRate (fst (getLimiter (newRateLimiter 10) ''192.0.2.7:51234'')) = 10
   \<and> fst (allow_burst 21 (newRateLimiter 10) ''192.0.2.7:51234'' 0) = replicate 20 True @ [False]
   \<and> (0::nat) < 21 \<and> nat (2 * rate (newRateLimiter 10)) \<le> 21 \<and> (0::rat) \<le> 1 / 10
   \<and> fst (allow (snd (allow_burst 21 (newRateLimiter 10) ''192.0.2.7:51234'' 0)) ''192.0.2.7:51234'' (1 / 10))"
proof -
  have fresh: "limiters (newRateLimiter 10) ''192.0.2.7:51234'' = None"
    by (simp add: newRateLimiter_def)
  have r: "rate (newRateLimiter 10) = 10" by (simp add: newRateLimiter_def)
  have lo: "- (2 ^ 62) \<le> rate (newRateLimiter 10)" and hi: "rate (newRateLimiter 10) < 2 ^ 62"
    unfolding r by simp_all
  have reps: "replicate (21 - 20) False = [False]" by simp
  from fresh_identity_burst [OF fresh lo hi, of 21 0 "1 / 10"] fresh lo hi
  show ?thesis unfolding r by (simp add: reps)
qed

text \<open>
  With \<^verbatim>\<open>RATE_LIMIT=4611686018427387904\<close> the product \<^verbatim>\<open>rl.rate*2\<close> wraps to \<open>-2\<^sup>6\<^sup>3\<close>: the
  capacity is not twice the rate, and the first call already fails.
\<close>

theorem burst_overflow_counterexample:
  "capacity (fst (getLimiter (newRateLimiter (2 ^ 62)) ''192.0.2.7:51234'')) = - (2 ^ 63)
   \<and> capacity (fst (getLimiter (newRateLimiter (2 ^ 62)) ''192.0.2.7:51234'')) \<noteq> 2 * 2 ^ 62
   \<and> fst (allow_burst 1 (newRateLimiter (2 ^ 62)) ''192.0.2.7:51234'' 0) = [False]"
proof -
  have cap: "capacity (fst (getLimiter (newRateLimiter (2 ^ 62)) ''192.0.2.7:51234'')) = - (2 ^ 63)"
    by (simp add: getLimiter_def Let_def rate_NewLimiter_def newRateLimiter_def int64_def)
  have "fst (allow (newRateLimiter (2 ^ 62)) ''192.0.2.7:51234'' 0) = False"
    by (simp add: allow_def getLimiter_def Let_def rate_NewLimiter_def newRateLimiter_def int64_def
        Allow_def refilled_def)
  then have "fst (allow_burst (Suc 0) (newRateLimiter (2 ^ 62)) ''192.0.2.7:51234'' 0) = [False]"
    by (auto split: prod.splits)
  with cap show ?thesis by simp
qed

section \<open>Properties of the store in memory\<close>

lemma slice_view_length: "wf_slice h s \<Longrightarrow> length (slice_view h s) = len s"
  by (auto simp: slice_view_def wf_slice_def)

lemma heap_append_view:
  assumes "wf_slice h s" and "heap_append spare h s x = (s', h')"
  shows "slice_view h' s' = slice_view h s @ [x]" and "wf_slice h' s'"
    and "length h \<le> length h'"
    and "arr s' = arr s \<or> arr s' = length h"
    and "\<And>a. a < length h \<Longrightarrow> a \<noteq> arr s \<Longrightarrow> h' ! a = h ! a"
proof -
  show "slice_view h' s' = slice_view h s @ [x]"
  proof (cases "len s < cap s")
    case True
    with assms have s': "s' = s\<lparr>len := len s + 1\<rparr>"
      and h': "h' = h[arr s := (h ! arr s)[off s + len s := x] ]"
      by (auto simp: heap_append_def)
    from assms(1) True have in_range: "off s + len s < length (h ! arr s)" and a: "arr s < length h"
      by (auto simp: wf_slice_def)
    have "take (Suc (len s)) (drop (off s) ((h ! arr s)[off s + len s := x]))
        = take (len s) (drop (off s) (h ! arr s)) @ [x]"
      using in_range
      by (simp add: take_Suc_conv_app_nth drop_update_swap)
    with a show ?thesis by (simp add: s' h' slice_view_def)
  next
    case False
    with assms have s': "s' = \<lparr>arr = length h, off = 0, len = len s + 1, cap = len s + 1 + spare (cap s)\<rparr>"
      and h': "h' = h @ [slice_view h s @ [x] @ make_slice (spare (cap s))]"
      by (auto simp: heap_append_def)
    show ?thesis
      using slice_view_length [OF assms(1)] by (simp add: s' h' slice_view_def)
  qed
  show "wf_slice h' s'" "length h \<le> length h'" "arr s' = arr s \<or> arr s' = length h"
    using assms slice_view_length [OF assms(1)]
    by (auto simp: heap_append_def wf_slice_def make_slice_def nth_append split: if_splits)
  show "\<And>a. a < length h \<Longrightarrow> a \<noteq> arr s \<Longrightarrow> h' ! a = h ! a"
    using assms by (auto simp: heap_append_def nth_append split: if_splits)
qed


lemma heap_slice_from_view:
  assumes "wf_slice h s"
  shows "map_option (slice_view h) (heap_slice_from s low) = slice_from (slice_view h s) low"
    and "heap_slice_from s low = Some s' \<Longrightarrow> wf_slice h s' \<and> arr s' = arr s"
proof -
  have "take (len s - nat low) (drop (off s + nat low) (h ! arr s))
      = drop (nat low) (take (len s) (drop (off s) (h ! arr s)))"
    by (simp add: drop_take add.commute)
  then show "map_option (slice_view h) (heap_slice_from s low) = slice_from (slice_view h s) low"
    using slice_view_length [OF assms]
    by (simp add: heap_slice_from_def slice_from_def) (simp add: slice_view_def)
  show "heap_slice_from s low = Some s' \<Longrightarrow> wf_slice h s' \<and> arr s' = arr s"
    using assms by (auto simp: heap_slice_from_def wf_slice_def split: if_splits)
qed

lemma Add_mem_refines:
  assumes wf: "wf_slice h (mem_pairs s)" and add: "Add_mem spare h s p = (r, h', s')"
  shows "Add (abstract_storage h s) p = (r, abstract_storage h' s')"
    and "wf_slice h' (mem_pairs s')"
    and "length h \<le> length h'"
    and "arr (mem_pairs s') = arr (mem_pairs s) \<or> arr (mem_pairs s') = length h"
    and "\<And>a. a < length h \<Longrightarrow> a \<noteq> arr (mem_pairs s) \<Longrightarrow> h' ! a = h ! a"
proof -
  obtain sl h1 where app: "heap_append spare h (mem_pairs s) p = (sl, h1)"
    by (cases "heap_append spare h (mem_pairs s) p")
  note ap = heap_append_view [OF wf app]
  have len: "length (slice_view h1 sl) = len sl"
    using ap(2) by (rule slice_view_length)
  have h1: "h' = h1"
    using add by (auto simp: Add_mem_def app Let_def split: if_splits option.splits)
  show "length h \<le> length h'" and "\<And>a. a < length h \<Longrightarrow> a \<noteq> arr (mem_pairs s) \<Longrightarrow> h' ! a = h ! a"
    using ap(3,5) by (simp_all add: h1)
  show "Add (abstract_storage h s) p = (r, abstract_storage h' s')"
  proof (cases "int (len sl) > mem_maxSize s")
    case False
    with add have "r = Returns None" and "s' = s\<lparr>mem_pairs := sl\<rparr>"
      by (simp_all add: Add_mem_def app Let_def)
    with False len show ?thesis
      by (simp add: Add_def abstract_storage_def ap(1) h1 Let_def)
  next
    case True
    show ?thesis
    proof (cases "heap_slice_from sl (int (len sl) - mem_maxSize s)")
      case None
      with add True have "r = Panics" and "s' = s\<lparr>mem_pairs := sl\<rparr>"
        by (simp_all add: Add_mem_def app Let_def)
      moreover from heap_slice_from_view(1) [OF ap(2), of "int (len sl) - mem_maxSize s"] None
      have "slice_from (slice_view h1 sl) (int (len sl) - mem_maxSize s) = None" by simp
      ultimately show ?thesis using True len
        by (simp add: Add_def abstract_storage_def ap(1) [symmetric] h1 Let_def)
    next
      case (Some sl2)
      with add True have "r = Returns None" and "s' = s\<lparr>mem_pairs := sl2\<rparr>"
        by (simp_all add: Add_mem_def app Let_def)
      moreover from heap_slice_from_view(1) [OF ap(2), of "int (len sl) - mem_maxSize s"] Some
      have "slice_from (slice_view h1 sl) (int (len sl) - mem_maxSize s) = Some (slice_view h1 sl2)"
        by simp
      ultimately show ?thesis using True len
        by (simp add: Add_def abstract_storage_def ap(1) [symmetric] h1 Let_def)
    qed
  qed
  have "mem_pairs s' = sl \<or> (\<exists>low. heap_slice_from sl low = Some (mem_pairs s'))"
    using add by (auto simp: Add_mem_def app Let_def split: if_splits option.splits)
  then show "wf_slice h' (mem_pairs s')"
    and "arr (mem_pairs s') = arr (mem_pairs s) \<or> arr (mem_pairs s') = length h"
    using ap(2,4) heap_slice_from_view(2) [OF ap(2)] by (auto simp: h1)
qed

lemma GetAll_mem_copy:
  assumes wf: "wf_slice h (mem_pairs s)" and get: "GetAll_mem h s = ((res, e), h')"
  shows "slice_view h' res = slice_view h (mem_pairs s)"
    and "e = None"
    and "arr res = length h"
    and "length h' = Suc (length h)"
    and "\<And>a. a < length h \<Longrightarrow> h' ! a = h ! a"
    and "wf_slice h' res"
    and "wf_slice h' (mem_pairs s)"
    and "abstract_storage h' s = abstract_storage h s"
proof -
  let ?n = "len (mem_pairs s)"
  let ?res = "\<lparr>arr = length h, off = 0, len = ?n, cap = ?n\<rparr>"
  let ?h1 = "h @ [make_slice ?n]"
  from get have res: "res = ?res" and e: "e = None" and h': "h' = heap_copy ?h1 ?res (mem_pairs s)"
    by (auto simp: GetAll_mem_def heap_make_def)
  have a: "arr (mem_pairs s) < length h" using wf by (simp add: wf_slice_def)
  have view1: "slice_view (h @ [x]) (mem_pairs s) = slice_view h (mem_pairs s)" for x
    using a by (simp add: slice_view_def nth_append)
  have h'': "h' = h @ [slice_view h (mem_pairs s)]"
    using slice_view_length [OF wf]
    by (simp add: h' heap_copy_def Let_def view1 make_slice_def)
  show "e = None" by (rule e)
  show "arr res = length h" by (simp add: res)
  show "length h' = Suc (length h)" by (simp add: h'')
  show "\<And>a. a < length h \<Longrightarrow> h' ! a = h ! a" by (simp add: h'' nth_append)
  show "slice_view h' res = slice_view h (mem_pairs s)"
    using slice_view_length [OF wf] by (simp add: h'' res slice_view_def)
  show "wf_slice h' res"
    using slice_view_length [OF wf] by (simp add: h'' res wf_slice_def)
  show "wf_slice h' (mem_pairs s)"
    using wf by (simp add: h'' wf_slice_def nth_append)
  show "abstract_storage h' s = abstract_storage h s"
    by (simp add: abstract_storage_def h'' view1)
qed

lemma Add_all_mem_frame:
  assumes "wf_slice h (mem_pairs s)" and "a < length h" and "a \<noteq> arr (mem_pairs s)"
      and "Add_all_mem spare h s ps = (h', s')"
  shows "h' ! a = h ! a \<and> wf_slice h' (mem_pairs s') \<and> a \<noteq> arr (mem_pairs s') \<and> a < length h'"
  using assms
proof (induction ps arbitrary: h s)
  case Nil
  then show ?case by simp
next
  case (Cons p ps)
  obtain r h1 s1 where step: "Add_mem spare h s p = (r, h1, s1)"
    by (cases "Add_mem spare h s p")
  note st = Add_mem_refines [OF Cons.prems(1) step]
  have "a < length h1" using st(3) Cons.prems(2) by simp
  moreover have "a \<noteq> arr (mem_pairs s1)" using st(4) Cons.prems(2,3) by auto
  moreover have "Add_all_mem spare h1 s1 ps = (h', s')" using Cons.prems(4) step by simp
  ultimately have "h' ! a = h1 ! a \<and> wf_slice h' (mem_pairs s') \<and> a \<noteq> arr (mem_pairs s')
      \<and> a < length h'"
    using Cons.IH [OF st(2)] by simp
  with st(5) [OF Cons.prems(2,3)] show ?case by simp
qed

lemma GetAll_mem_fresh:
  assumes wf: "wf_slice h (mem_pairs s)" and get: "GetAll_mem h s = ((res, e), h')"
  shows "h' ! arr res = slice_view h (mem_pairs s)"
    and "off res = 0" and "len res = cap res" and "cap res = len (mem_pairs s)"
proof -
  let ?n = "len (mem_pairs s)"
  let ?res = "\<lparr>arr = length h, off = 0, len = ?n, cap = ?n\<rparr>"
  from get have res: "res = ?res"
    and h': "h' = heap_copy (h @ [make_slice ?n]) ?res (mem_pairs s)"
    by (auto simp: GetAll_mem_def heap_make_def)
  show "off res = 0" and "len res = cap res" and "cap res = len (mem_pairs s)"
    by (simp_all add: res)
  have a: "arr (mem_pairs s) < length h" using wf by (simp add: wf_slice_def)
  have view1: "slice_view (h @ [x]) (mem_pairs s) = slice_view h (mem_pairs s)" for x
    using a by (simp add: slice_view_def nth_append)
  have "h' = h @ [slice_view h (mem_pairs s)]"
    using slice_view_length [OF wf]
    by (simp add: h' heap_copy_def Let_def view1 make_slice_def)
  then show "h' ! arr res = slice_view h (mem_pairs s)"
    by (simp add: res)
qed

lemma NewMemoryStorage_mem_wf:
  assumes "NewMemoryStorage_mem h n = (s, h')"
  shows "wf_slice h' (mem_pairs s)" and "abstract_storage h' s = NewMemoryStorage n"
  using assms
  by (auto simp: NewMemoryStorage_mem_def heap_make_def wf_slice_def abstract_storage_def
      NewMemoryStorage_def slice_view_def make_slice_def)

lemma Add_all_mem_refines:
  assumes "wf_slice h (mem_pairs s)" and "Add_all_mem spare h s ps = (h', s')"
  shows "abstract_storage h' s' = snd (Add_all (abstract_storage h s) ps)"
  using assms
proof (induction ps arbitrary: h s)
  case Nil
  then show ?case by simp
next
  case (Cons p ps)
  obtain r h1 s1 where step: "Add_mem spare h s p = (r, h1, s1)"
    by (cases "Add_mem spare h s p")
  note st = Add_mem_refines [OF Cons.prems(1) step]
  have "Add_all_mem spare h1 s1 ps = (h', s')" using Cons.prems(2) step by simp
  from Cons.IH [OF st(2) this] st(1) show ?case
    by (simp split: prod.splits)
qed

text \<open>
  The store's own slice points into the heap as it is, so a slice that \<^verbatim>\<open>GetAll\<close> hands
  out at the address \<open>length h\<close> cannot be the store's, nor any slice made before.
\<close>

lemma store_slice_in_heap: "wf_slice h (mem_pairs s) \<Longrightarrow> arr (mem_pairs s) \<noteq> length h"
  by (simp add: wf_slice_def)

text \<open>
  Claim C8. In every well-formed state, what \<^verbatim>\<open>GetAll\<close> returns is an independent copy
  of the log, not a view of the store's array. The returned slice shows the log as it
  was at the call. Its array is a new one, at an address the heap did not have before
  the call, it holds exactly that log with no spare capacity, and \<^verbatim>\<open>GetAll\<close> writes to
  no other array. After any run of \<^verbatim>\<open>Add\<close> calls on the store the returned slice's
  array is still none of the store's, before or after the calls, the whole array is
  unchanged, so the slice still shows the same sequence, while the store's own log
  has moved on as \<^verbatim>\<open>Add\<close> prescribes; and nothing written into the returned array
  reaches the store's log.
\<close>

theorem GetAll_returns_independent_copy:
  assumes "wf_slice h (mem_pairs s)"
      and "GetAll_mem h s = ((result, e), h1)"
      and "Add_all_mem spare h1 s ps = (h2, s2)"
  shows "e = None
       \<and> slice_view h1 result = fst (GetAll (abstract_storage h s))
       \<and> slice_view h2 result = slice_view h1 result
       \<and> abstract_storage h2 s2 = snd (Add_all (abstract_storage h s) ps)
       \<and> arr result = length h
       \<and> length h1 = Suc (length h)
       \<and> (\<forall>a < length h. h1 ! a = h ! a)
       \<and> h1 ! arr result = pairs (abstract_storage h s)
       \<and> off result = 0 \<and> len result = cap result
       \<and> arr result \<noteq> arr (mem_pairs s)
       \<and> arr result \<noteq> arr (mem_pairs s2)
       \<and> h2 ! arr result = h1 ! arr result
       \<and> (\<forall>xs. abstract_storage (h2[arr result := xs]) s2 = abstract_storage h2 s2)"
proof -
  note get = GetAll_mem_copy [OF assms(1,2)]
  note fresh = GetAll_mem_fresh [OF assms(1,2)]
  have a: "arr result < length h1" using get(3,4) by simp
  have "arr (mem_pairs s) < length h" using assms(1) by (simp add: wf_slice_def)
  then have b: "arr result \<noteq> arr (mem_pairs s)" using get(3) by simp
  note frame = Add_all_mem_frame [OF get(7) a b assms(3)]
  have whole: "h2 ! arr result = h1 ! arr result" using frame by simp
  have other: "arr result \<noteq> arr (mem_pairs s2)" using frame by simp
  have view: "slice_view h2 result = slice_view h1 result"
    using whole by (simp add: slice_view_def)
  have store: "abstract_storage h2 s2 = snd (Add_all (abstract_storage h s) ps)"
    using Add_all_mem_refines [OF get(7) assms(3)] by (simp add: get(8))
  have at_call: "slice_view h1 result = fst (GetAll (abstract_storage h s))"
    by (simp add: get(1) GetAll_pairs abstract_storage_def)
  have contents: "h1 ! arr result = pairs (abstract_storage h s)"
    by (simp add: fresh(1) abstract_storage_def)
  have untouched: "\<forall>a < length h. h1 ! a = h ! a" using get(5) by simp
  have no_reach: "\<forall>xs. abstract_storage (h2[arr result := xs]) s2 = abstract_storage h2 s2"
    using other by (simp add: abstract_storage_def slice_view_def)
  show ?thesis
    by (intro conjI get(2) at_call view store get(3) get(4) untouched contents fresh(2) fresh(3)
        b other whole no_reach)
qed

lemma sample_GetAll:
  "GetAll_mem sample_heap sample_storage_mem =
     ((\<lparr>arr = 1, off = 0, len = 1, cap = 1\<rparr>, None),
      [ [\<lparr>Question = ''q1'', Answer = ''a1''\<rparr>], [\<lparr>Question = ''q1'', Answer = ''a1''\<rparr>] ])"
  by (simp add: GetAll_mem_def sample_heap_def sample_storage_mem_def heap_make_def heap_copy_def
      slice_view_def make_slice_def Let_def)

lemma sample_Add_all:
  "Add_all_mem (\<lambda>c. c)
     [ [\<lparr>Question = ''q1'', Answer = ''a1''\<rparr>], [\<lparr>Question = ''q1'', Answer = ''a1''\<rparr>] ]
     sample_storage_mem
     [\<lparr>Question = ''q2'', Answer = ''a2''\<rparr>, \<lparr>Question = ''q3'', Answer = ''a3''\<rparr>] =
   ([ [\<lparr>Question = ''q1'', Answer = ''a1''\<rparr>], [\<lparr>Question = ''q1'', Answer = ''a1''\<rparr>],
     [\<lparr>Question = ''q1'', Answer = ''a1''\<rparr>, \<lparr>Question = ''q2'', Answer = ''a2''\<rparr>,
      \<lparr>Question = ''q3'', Answer = ''a3''\<rparr>] ],
    \<lparr>mem_maxSize = 2, mem_pairs = \<lparr>arr = 2, off = 1, len = 2, cap = 2\<rparr>\<rparr>)"
  by (simp add: Add_mem_def sample_storage_mem_def heap_append_def heap_slice_from_def
      slice_view_def make_slice_def zero_QAPair_def Let_def)

text \<open>
  A store of capacity 2 holding \<open>q1\<close> in the array at address 0. \<^verbatim>\<open>GetAll\<close> returns a
  slice of a new array at address 1. After two more pairs were added the store's log
  is in the array at address 2 and \<open>q1\<close> has been dropped from it, and the returned
  slice still shows \<open>q1\<close>.
\<close>

theorem GetAll_returns_independent_copy_witness:
  "wf_slice sample_heap (mem_pairs sample_storage_mem)
   \<and> fst (GetAll_mem sample_heap sample_storage_mem) = (\<lparr>arr = 1, off = 0, len = 1, cap = 1\<rparr>, None)
   \<and> arr \<lparr>arr = 1, off = 0, len = 1, cap = 1\<rparr> = length sample_heap
   \<and> arr \<lparr>arr = 1, off = 0, len = 1, cap = 1\<rparr> \<noteq> arr (mem_pairs sample_storage_mem)
   \<and> (0::nat) < length sample_heap
   \<and> snd (GetAll_mem sample_heap sample_storage_mem) ! 0 = sample_heap ! 0
   \<and> slice_view (snd (GetAll_mem sample_heap sample_storage_mem)) \<lparr>arr = 1, off = 0, len = 1, cap = 1\<rparr>
       = [\<lparr>Question = ''q1'', Answer = ''a1''\<rparr>]
   \<and> slice_view
        (fst (Add_all_mem (\<lambda>c. c) (snd (GetAll_mem sample_heap sample_storage_mem)) sample_storage_mem
           [\<lparr>Question = ''q2'', Answer = ''a2''\<rparr>, \<lparr>Question = ''q3'', Answer = ''a3''\<rparr>]))
        \<lparr>arr = 1, off = 0, len = 1, cap = 1\<rparr>
       = [\<lparr>Question = ''q1'', Answer = ''a1''\<rparr>]
   \<and> arr \<lparr>arr = 1, off = 0, len = 1, cap = 1\<rparr> \<noteq>
       arr (mem_pairs
        (snd (Add_all_mem (\<lambda>c. c) (snd (GetAll_mem sample_heap sample_storage_mem)) sample_storage_mem
           [\<lparr>Question = ''q2'', Answer = ''a2''\<rparr>, \<lparr>Question = ''q3'', Answer = ''a3''\<rparr>])))
   \<and> pairs (abstract_storage
        (fst (Add_all_mem (\<lambda>c. c) (snd (GetAll_mem sample_heap sample_storage_mem)) sample_storage_mem
           [\<lparr>Question = ''q2'', Answer = ''a2''\<rparr>, \<lparr>Question = ''q3'', Answer = ''a3''\<rparr>]))
        (snd (Add_all_mem (\<lambda>c. c) (snd (GetAll_mem sample_heap sample_storage_mem)) sample_storage_mem
           [\<lparr>Question = ''q2'', Answer = ''a2''\<rparr>, \<lparr>Question = ''q3'', Answer = ''a3''\<rparr>])))
       = [\<lparr>Question = ''q2'', Answer = ''a2''\<rparr>, \<lparr>Question = ''q3'', Answer = ''a3''\<rparr>]"
proof -
  have wf: "wf_slice sample_heap (mem_pairs sample_storage_mem)"
    by (simp add: wf_slice_def sample_heap_def sample_storage_mem_def)
  have view: "slice_view
      [ [\<lparr>Question = ''q1'', Answer = ''a1''\<rparr>], [\<lparr>Question = ''q1'', Answer = ''a1''\<rparr>] ]
      \<lparr>arr = 1, off = 0, len = 1, cap = 1\<rparr> = [\<lparr>Question = ''q1'', Answer = ''a1''\<rparr>]"
    by (simp add: slice_view_def)
  have log: "pairs (abstract_storage
      [ [\<lparr>Question = ''q1'', Answer = ''a1''\<rparr>], [\<lparr>Question = ''q1'', Answer = ''a1''\<rparr>],
       [\<lparr>Question = ''q1'', Answer = ''a1''\<rparr>, \<lparr>Question = ''q2'', Answer = ''a2''\<rparr>,
        \<lparr>Question = ''q3'', Answer = ''a3''\<rparr>] ]
      \<lparr>mem_maxSize = 2, mem_pairs = \<lparr>arr = 2, off = 1, len = 2, cap = 2\<rparr>\<rparr>)
      = [\<lparr>Question = ''q2'', Answer = ''a2''\<rparr>, \<lparr>Question = ''q3'', Answer = ''a3''\<rparr>]"
    by (simp add: abstract_storage_def slice_view_def)
  have pos: "(0::nat) < length sample_heap" by (simp add: sample_heap_def)
  note indep = GetAll_returns_independent_copy [OF wf sample_GetAll sample_Add_all]
  note same = indep [THEN conjunct2, THEN conjunct2, THEN conjunct1]
  note rest = indep [THEN conjunct2, THEN conjunct2, THEN conjunct2, THEN conjunct2]
  note new = rest [THEN conjunct1]
  note kept = rest [THEN conjunct2, THEN conjunct2, THEN conjunct1, rule_format, OF pos]
  note rest2 = rest [THEN conjunct2, THEN conjunct2, THEN conjunct2, THEN conjunct2,
      THEN conjunct2, THEN conjunct2]
  note before = rest2 [THEN conjunct1]
  note after = rest2 [THEN conjunct2, THEN conjunct1]
  show ?thesis
    unfolding sample_GetAll fst_conv snd_conv sample_Add_all
    by (intro conjI wf refl view log pos new kept before after trans [OF same view])
qed

end
